theory Spec2Isabelle
  imports Complex_Main "HOL-Library.Multiset"
begin

section \<open>Data model\<close>

text \<open>
  The helpers of \<^verbatim>\<open>notebooks/grn.py\<close> work on pandas dataframes. A cell holds a string,
  a double or (in the table of column types) a dtype; a missing entry is the double NaN,
  as \<^verbatim>\<open>read_csv\<close> produces it. Finite doubles are represented by the rational they
  denote (rounding is outside this model).
\<close>

datatype float64 = Fin rat | PInf | NInf | NaN

datatype dtype = Bool | Int64 | Float64 | Object

datatype cell = Str string | Num float64 | Dt dtype

datatype error =
    KeyError cell
  | AttributeError string
  | AssertionError string
  | TypeError string
  | ValueError string
  | FileNotFoundError string
  | OSError string

text \<open>
  A dataframe: the column labels, the dtype of each column, and the rows, each with its
  index label and one cell per column.
\<close>

record dataframe =
  columns :: "string list"
  dtypes :: "dtype list"
  rows :: "(nat \<times> cell list) list"

section \<open>Missing-data check\<close>

text \<open>\<^verbatim>\<open>notnull\<close>: every cell but NaN counts as present, the infinities included.\<close>

definition notnull :: "cell \<Rightarrow> bool" where
  "notnull c = (c \<noteq> Num NaN)"

definition df_notnull :: "dataframe \<Rightarrow> bool list list" where
  "df_notnull df = map (\<lambda>r. map notnull (snd r)) (rows df)"

definition np_all :: "bool list list \<Rightarrow> bool" where
  "np_all m = list_all (\<lambda>r. list_all (\<lambda>b. b) r) m"

text \<open>
  \<^verbatim>\<open>assert np.all(df.notnull()), fname + ' contains missing data'\<close>
\<close>

definition test_missing_data :: "dataframe \<Rightarrow> string \<Rightarrow> error + unit" where
  "test_missing_data df fname =
     (if np_all (df_notnull df) then Inr ()
      else Inl (AssertionError (fname @ '' contains missing data'')))"

section \<open>Object store and pandas primitives\<close>

text \<open>
  Dataframes are mutable objects. A store holds the objects allocated so far, a reference
  is a position in it. Every pandas operation that returns a new object (the constructor,
  \<^verbatim>\<open>pd.concat\<close>, \<^verbatim>\<open>pd.merge\<close>, selection by a boolean mask) allocates; an operation
  called with \<^verbatim>\<open>inplace=True\<close> and a column assignment overwrite the object they are
  called on.
\<close>

type_synonym ref = nat

type_synonym store = "dataframe list"

definition alloc :: "dataframe \<Rightarrow> store \<Rightarrow> ref \<times> store" where
  "alloc df s = (length s, s @ [df])"

text \<open>\<^verbatim>\<open>pd.DataFrame()\<close>: no columns, no rows.\<close>

definition pd_DataFrame :: dataframe where
  "pd_DataFrame = \<lparr>columns = [], dtypes = [], rows = []\<rparr>"

text \<open>
  What pandas keeps true of a frame read from a file: the labels differ from one another,
  and every column has a dtype and a cell in every row.
\<close>

definition wf_df :: "dataframe \<Rightarrow> bool" where
  "wf_df df = (distinct (columns df) \<and> length (dtypes df) = length (columns df)
     \<and> list_all (\<lambda>r. length (snd r) = length (columns df)) (rows df))"

fun index_of :: "'a \<Rightarrow> 'a list \<Rightarrow> nat option" where
  "index_of x [] = None"
| "index_of x (y # ys) = (if x = y then Some 0 else map_option Suc (index_of x ys))"

text \<open>\<^verbatim>\<open>df[name].values\<close>: the cells of one column, KeyError when there is no such label.\<close>

definition getitem_values :: "dataframe \<Rightarrow> string \<Rightarrow> error + cell list" where
  "getitem_values df name =
     (case index_of name (columns df) of
        None \<Rightarrow> Inl (KeyError (Str name))
      | Some i \<Rightarrow> Inr (map (\<lambda>r. snd r ! i) (rows df)))"

text \<open>\<^verbatim>\<open>df.name.values\<close>: attribute access to a column.\<close>

definition getattr_values :: "dataframe \<Rightarrow> string \<Rightarrow> error + cell list" where
  "getattr_values df name =
     (case index_of name (columns df) of
        None \<Rightarrow> Inl (AttributeError name)
      | Some i \<Rightarrow> Inr (map (\<lambda>r. snd r ! i) (rows df)))"

text \<open>The distinct elements of a list, in order of first appearance.\<close>

definition uniques :: "'a list \<Rightarrow> 'a list" where
  "uniques xs = rev (remdups (rev xs))"

text \<open>Elementwise \<^verbatim>\<open>==\<close> of numpy and pandas: NaN is equal to nothing, itself included.\<close>

definition cell_eq :: "cell \<Rightarrow> cell \<Rightarrow> bool" where
  "cell_eq a b = (a = b \<and> a \<noteq> Num NaN)"

definition series_eq :: "cell list \<Rightarrow> cell \<Rightarrow> bool list" where
  "series_eq vals g = map (\<lambda>v. cell_eq v g) vals"

text \<open>Selection of the positions where a boolean mask is true.\<close>

definition mask_select :: "'a list \<Rightarrow> bool list \<Rightarrow> 'a list" where
  "mask_select xs m = map fst (filter snd (zip xs m))"

text \<open>\<^verbatim>\<open>df[mask]\<close>: a new dataframe with the selected rows, index labels kept.\<close>

definition getitem_mask :: "dataframe \<Rightarrow> bool list \<Rightarrow> dataframe" where
  "getitem_mask df m = df\<lparr>rows := mask_select (rows df) m\<rparr>"

text \<open>
  \<^verbatim>\<open>pd.concat([a, b])\<close> along the rows: the columns of \<open>a\<close>, then those of \<open>b\<close> that
  \<open>a\<close> lacks; every row is laid out on the joint columns, NaN where its frame has no such
  column; index labels are kept. The dtype of a joint column is taken from the first frame
  that has it (exact when the frames agree on their shared columns, as they do in this
  program; numpy's promotion of differing dtypes is not modelled).
\<close>

definition reindex_row :: "string list \<Rightarrow> string list \<Rightarrow> cell list \<Rightarrow> cell list" where
  "reindex_row src dst r =
     map (\<lambda>c. case index_of c src of None \<Rightarrow> Num NaN | Some i \<Rightarrow> r ! i) dst"

definition dtype_of :: "dataframe \<Rightarrow> string \<Rightarrow> dtype option" where
  "dtype_of df c = map_option (\<lambda>i. dtypes df ! i) (index_of c (columns df))"

definition pd_concat :: "dataframe \<Rightarrow> dataframe \<Rightarrow> dataframe" where
  "pd_concat a b =
     (let cols = columns a @ filter (\<lambda>c. c \<notin> set (columns a)) (columns b)
      in \<lparr>columns = cols,
          dtypes = map (\<lambda>c. case dtype_of a c of Some t \<Rightarrow> t
                            | None \<Rightarrow> (case dtype_of b c of Some t \<Rightarrow> t | None \<Rightarrow> Object)) cols,
          rows = map (\<lambda>r. (fst r, reindex_row (columns a) cols (snd r))) (rows a)
               @ map (\<lambda>r. (fst r, reindex_row (columns b) cols (snd r))) (rows b)\<rparr>)"

text \<open>
  \<^verbatim>\<open>drop_duplicates\<close> keeps the first row of every group of rows with the same values
  (the index label is not compared, and here NaN counts as equal to NaN). pandas returns
  at once, changing nothing, when the frame is empty (no rows or no columns).
\<close>

fun first_occurrences :: "cell list list \<Rightarrow> (nat \<times> cell list) list \<Rightarrow> (nat \<times> cell list) list" where
  "first_occurrences seen [] = []"
| "first_occurrences seen (r # rs) =
     (if snd r \<in> set seen then first_occurrences seen rs
      else r # first_occurrences (snd r # seen) rs)"

definition drop_duplicates :: "dataframe \<Rightarrow> dataframe" where
  "drop_duplicates df =
     (if rows df = [] \<or> columns df = [] then df
      else df\<lparr>rows := first_occurrences [] (rows df)\<rparr>)"

text \<open>
  \<^verbatim>\<open>pd.merge(left, right, on=key, how='inner')\<close>: every pair of a left and a right row
  with the same key. pandas numbers the keys in order of first appearance in the left
  frame and lays the pairs out key by key; for one key, the left rows in their order, and
  for each of them the right rows in their order. (With no key repeated in the left frame
  this is the order of the left rows.) The key column is taken once: from the left frame,
  or, when the left frame has no rows, from the right frame, at its place there. A label
  that both frames then have gets the suffix \<^verbatim>\<open>_x\<close> on the left and \<^verbatim>\<open>_y\<close> on the right;
  the index is renumbered.
\<close>

definition drop_nth :: "nat \<Rightarrow> 'a list \<Rightarrow> 'a list" where
  "drop_nth j xs = take j xs @ drop (Suc j) xs"

definition merge_body ::
  "nat \<Rightarrow> nat \<Rightarrow> (nat \<times> cell list) list \<Rightarrow> (nat \<times> cell list) list \<Rightarrow> cell list list" where
  "merge_body i j lrows rrows =
     concat (map (\<lambda>k.
        concat (map (\<lambda>l. map (\<lambda>r. snd l @ drop_nth j (snd r))
                          (filter (\<lambda>r. snd r ! j = k) rrows))
                  (filter (\<lambda>l. snd l ! i = k) lrows)))
       (uniques (map (\<lambda>l. snd l ! i) lrows)))"

definition pd_merge :: "dataframe \<Rightarrow> dataframe \<Rightarrow> string \<Rightarrow> error + dataframe" where
  "pd_merge left right on =
     (case index_of on (columns left) of
        None \<Rightarrow> Inl (KeyError (Str on))
      | Some i \<Rightarrow>
          (case index_of on (columns right) of
             None \<Rightarrow> Inl (KeyError (Str on))
           | Some j \<Rightarrow>
               (let lnames = (if rows left = [] then drop_nth i (columns left) else columns left);
                    rnames = (if rows left = [] then columns right else drop_nth j (columns right));
                    lcols = map (\<lambda>c. if c \<in> set rnames then c @ ''_x'' else c) lnames;
                    rcols = map (\<lambda>c. if c \<in> set lnames then c @ ''_y'' else c) rnames;
                    body = merge_body i j (rows left) (rows right)
                in Inr \<lparr>columns = lcols @ rcols,
                        dtypes = (if rows left = [] then drop_nth i (dtypes left) @ dtypes right
                                  else dtypes left @ drop_nth j (dtypes right)),
                        rows = zip [0..<length body] body\<rparr>)))"

section \<open>Filtering a dataframe by a gene list\<close>

text \<open>
  \<^verbatim>\<open>gene in test_gene_list\<close> for a list of gene names: a string cell is in the list when
  the list holds that string, a number is equal to no string.
\<close>

fun py_in :: "cell \<Rightarrow> string list \<Rightarrow> bool" where
  "py_in (Str g) l = (g \<in> set l)"
| "py_in (Num x) l = False"
| "py_in (Dt t) l = False"

text \<open>
  The loop of \<^verbatim>\<open>get_gene_data\<close> over the values of the gene column. \<open>gene_profiles\<close>
  refers to the frame built so far; each pass through the \<^verbatim>\<open>if\<close> binds it to a new
  object, the concatenation.
\<close>

fun gene_loop :: "ref \<Rightarrow> string \<Rightarrow> string list \<Rightarrow> cell list \<Rightarrow> ref \<Rightarrow> store \<Rightarrow> (error + ref) \<times> store" where
  "gene_loop data col test_gene_list [] gene_profiles s = (Inr gene_profiles, s)"
| "gene_loop data col test_gene_list (gene # genes) gene_profiles s =
     (if py_in gene test_gene_list then
        (case getitem_values (s ! data) col of
           Inl e \<Rightarrow> (Inl e, s)
         | Inr vals \<Rightarrow>
             (let df' = getitem_mask (s ! data) (series_eq vals gene);
                  (gene_profiles', s') = alloc (pd_concat (s ! gene_profiles) df') s
              in gene_loop data col test_gene_list genes gene_profiles' s'))
      else gene_loop data col test_gene_list genes gene_profiles s)"

definition get_gene_data :: "ref \<Rightarrow> string \<Rightarrow> string list \<Rightarrow> store \<Rightarrow> (error + ref) \<times> store" where
  "get_gene_data data gene_name_column test_gene_list s =
     (let (gene_profiles, s1) = alloc pd_DataFrame s
      in case getitem_values (s1 ! data) gene_name_column of
           Inl e \<Rightarrow> (Inl e, s1)
         | Inr vals \<Rightarrow>
             (case gene_loop data gene_name_column test_gene_list vals gene_profiles s1 of
                (Inl e, s2) \<Rightarrow> (Inl e, s2)
              | (Inr gene_profiles', s2) \<Rightarrow>
                  (Inr gene_profiles', s2[gene_profiles' := drop_duplicates (s2 ! gene_profiles')])))"

section \<open>Data exploration helpers\<close>

text \<open>
  \<^verbatim>\<open>get_df_missing_columns\<close>. Per column, the share of null cells in percent
  (\<^verbatim>\<open>0/0\<close> is NaN for a frame without rows), as a series in falling order with NaN
  last; the series and the dtypes become two-column frames (\<^verbatim>\<open>reset_index\<close>) that are
  merged on the column label; the merged frame is then sorted in place by percentage and
  dtype.
\<close>

definition isnull_sum :: "dataframe \<Rightarrow> nat list" where
  "isnull_sum df =
     map (\<lambda>i. length (filter (\<lambda>r. \<not> notnull (snd r ! i)) (rows df))) [0..<length (columns df)]"

definition percent :: "nat \<Rightarrow> nat \<Rightarrow> float64" where
  "percent c n = (if n = 0 then NaN else Fin (of_nat c / of_nat n * 100))"

fun float_key :: "cell \<Rightarrow> rat" where
  "float_key (Num (Fin r)) = r"
| "float_key c = 0"

fun dtype_rank :: "dtype \<Rightarrow> nat" where
  "dtype_rank Bool = 0"
| "dtype_rank Int64 = 1"
| "dtype_rank Float64 = 2"
| "dtype_rank Object = 3"

fun dtype_key :: "cell \<Rightarrow> nat" where
  "dtype_key (Dt t) = dtype_rank t"
| "dtype_key c = 0"

text \<open>Sorting rows by the float column at position \<open>i\<close>, rows with NaN there last.\<close>

definition sort_rows_float :: "nat \<Rightarrow> bool \<Rightarrow> (nat \<times> cell list) list \<Rightarrow> (nat \<times> cell list) list" where
  "sort_rows_float i ascending rs =
     sort_key (\<lambda>r. if ascending then float_key (snd r ! i) else - float_key (snd r ! i))
       (filter (\<lambda>r. notnull (snd r ! i)) rs)
     @ filter (\<lambda>r. \<not> notnull (snd r ! i)) rs"

definition sort_rows_dtype :: "nat \<Rightarrow> (nat \<times> cell list) list \<Rightarrow> (nat \<times> cell list) list" where
  "sort_rows_dtype i rs = sort_key (\<lambda>r. dtype_key (snd r ! i)) rs"

text \<open>
  \<^verbatim>\<open>df.sort_values([a, b])\<close> for a float column \<open>a\<close> and a dtype column \<open>b\<close>: the order
  by \<open>a\<close>, ties by \<open>b\<close>; index labels stay with their rows.
\<close>

definition sort_values2 :: "dataframe \<Rightarrow> string \<Rightarrow> string \<Rightarrow> error + dataframe" where
  "sort_values2 df a b =
     (case index_of a (columns df) of
        None \<Rightarrow> Inl (KeyError (Str a))
      | Some i \<Rightarrow>
          (case index_of b (columns df) of
             None \<Rightarrow> Inl (KeyError (Str b))
           | Some j \<Rightarrow> Inr (df\<lparr>rows := sort_rows_float i True (sort_rows_dtype j (rows df))\<rparr>)))"

definition frame_of_rows :: "string list \<Rightarrow> dtype list \<Rightarrow> cell list list \<Rightarrow> dataframe" where
  "frame_of_rows cols ts body = \<lparr>columns = cols, dtypes = ts, rows = zip [0..<length body] body\<rparr>"

definition get_df_missing_columns :: "ref \<Rightarrow> store \<Rightarrow> (error + ref) \<times> store" where
  "get_df_missing_columns data s =
     (let df = s ! data;
          missing = map (\<lambda>c. percent c (length (rows df))) (isnull_sum df);
          series = sort_rows_float 1 False
                     (zip [0..<length (columns df)]
                        (map (\<lambda>(l, p). [Str l, Num p]) (zip (columns df) missing)));
          df_missing_values =
            frame_of_rows [''index'', ''% missing_values''] [Object, Float64] (map snd series);
          df_feature_type =
            frame_of_rows [''index'', ''feature_type''] [Object, Object]
              (map (\<lambda>(l, t). [Str l, Dt t]) (zip (columns df) (dtypes df)))
      in case pd_merge df_feature_type df_missing_values ''index'' of
           Inl e \<Rightarrow> (Inl e, s)
         | Inr merged \<Rightarrow>
             (let (missing_cols_df, s1) = alloc merged s
              in case sort_values2 (s1 ! missing_cols_df) ''% missing_values'' ''feature_type'' of
                   Inl e \<Rightarrow> (Inl e, s1)
                 | Inr sorted_df \<Rightarrow> (Inr missing_cols_df, s1[missing_cols_df := sorted_df])))"

text \<open>
  \<^verbatim>\<open>find_constant_features\<close>: the columns with fewer than two distinct values (NaN is one
  value for \<^verbatim>\<open>unique\<close>). With a repeated label \<^verbatim>\<open>data[column]\<close> is a frame, which has no
  \<^verbatim>\<open>unique\<close>.
\<close>

fun constant_loop :: "dataframe \<Rightarrow> string list \<Rightarrow> string list \<Rightarrow> error + string list" where
  "constant_loop data [] const_features = Inr const_features"
| "constant_loop data (column # cols) const_features =
     (if count_list (columns data) column > 1 then Inl (AttributeError ''unique'')
      else case getitem_values data column of
             Inl e \<Rightarrow> Inl e
           | Inr vals \<Rightarrow>
               if length (uniques vals) < 2
               then constant_loop data cols (const_features @ [column])
               else constant_loop data cols const_features)"

definition find_constant_features :: "ref \<Rightarrow> store \<Rightarrow> (error + string list) \<times> store" where
  "find_constant_features data s = (constant_loop (s ! data) (columns (s ! data)) [], s)"

text \<open>
  The column labels grouped by dtype, \<^verbatim>\<open>columns.to_series().groupby(dtypes).groups\<close>: one
  entry per dtype that occurs, in the order of the dtypes, with the labels of its columns.
\<close>

definition dtype_groups :: "dataframe \<Rightarrow> (dtype \<times> string list) list" where
  "dtype_groups df =
     map (\<lambda>t. (t, map fst (filter (\<lambda>p. snd p = t) (zip (columns df) (dtypes df)))))
       (filter (\<lambda>t. t \<in> set (dtypes df)) [Bool, Int64, Float64, Object])"

text \<open>\<^verbatim>\<open>frame[v]\<close> for a list of labels: for each label in turn, the columns that carry it.\<close>

definition positions :: "'a \<Rightarrow> 'a list \<Rightarrow> nat list" where
  "positions x xs = filter (\<lambda>i. xs ! i = x) [0..<length xs]"

definition getitem_cols :: "dataframe \<Rightarrow> string list \<Rightarrow> dataframe" where
  "getitem_cols df v =
     (let ps = concat (map (\<lambda>l. positions l (columns df)) v)
      in \<lparr>columns = map (\<lambda>i. columns df ! i) ps,
          dtypes = map (\<lambda>i. dtypes df ! i) ps,
          rows = map (\<lambda>r. (fst r, map (\<lambda>i. snd r ! i) ps)) (rows df)\<rparr>)"

text \<open>\<^verbatim>\<open>vs.iloc[:, i].values\<close>\<close>

definition iloc_values :: "dataframe \<Rightarrow> nat \<Rightarrow> cell list" where
  "iloc_values df i = map (\<lambda>r. snd r ! i) (rows df)"

definition np_array_equal :: "cell list \<Rightarrow> cell list \<Rightarrow> bool" where
  "np_array_equal a b = list_all2 cell_eq a b"

text \<open>
  \<^verbatim>\<open>duplicate_columns\<close> and \<^verbatim>\<open>get_duplicate_columns\<close>: within each dtype group, the label
  of every column that is equal to a later column of the group (the inner loop stops at
  the first such column, so a label is added once per column).
\<close>

definition duplicate_columns :: "ref \<Rightarrow> store \<Rightarrow> string list \<times> store" where
  "duplicate_columns frame s =
     (let groups = dtype_groups (s ! frame);
          dups = concat (map (\<lambda>(t, v).
                   let cs = columns (getitem_cols (s ! frame) v);
                       vs = getitem_cols (s ! frame) v;
                       lcs = length cs
                   in concat (map (\<lambda>i.
                        let ia = iloc_values vs i
                        in if list_ex (\<lambda>j. np_array_equal ia (iloc_values vs j)) [i + 1..<lcs]
                           then [cs ! i] else []) [0..<lcs])) groups)
      in (dups, s))"

definition get_duplicate_columns :: "ref \<Rightarrow> store \<Rightarrow> string list \<times> store" where
  "get_duplicate_columns df s =
     (let groups = dtype_groups (s ! df);
          dups = concat (map (\<lambda>(t, v).
                   let cs = columns (getitem_cols (s ! df) v);
                       vs = getitem_cols (s ! df) v;
                       lcs = length cs
                   in concat (map (\<lambda>i.
                        let ia = iloc_values vs i
                        in if list_ex (\<lambda>j. np_array_equal ia (iloc_values vs j)) [i + 1..<lcs]
                           then [cs ! i] else []) [0..<lcs])) groups)
      in (dups, s))"

text \<open>
  One-hot encoding. The encoders belong to scikit-learn, not to this repository: what
  \<^verbatim>\<open>LabelEncoder().fit_transform\<close> and \<^verbatim>\<open>OneHotEncoder(sparse = False).fit_transform\<close>
  return, and the scaling and PCA steps of the denoising routine, are parameters of the
  model. They compute on values and change none of their arguments.
\<close>

record sklearn =
  LabelEncoder_fit_transform :: "cell list \<Rightarrow> error + nat list"
  OneHotEncoder_fit_transform :: "nat list \<Rightarrow> error + float64 list list"
  preprocess_fit_transform :: "cell list list \<Rightarrow> error + float64 list list"
  PCA_fit_transform :: "float64 \<Rightarrow> float64 list list \<Rightarrow> error + float64 list list"
  PCA_inverse_transform :: "float64 \<Rightarrow> float64 list list \<Rightarrow> float64 list list \<Rightarrow> error + float64 list list"

definition col_encoding :: "sklearn \<Rightarrow> dataframe \<Rightarrow> string \<Rightarrow> error + float64 list list" where
  "col_encoding sk df column =
     (case getitem_values df column of
        Inl e \<Rightarrow> Inl e
      | Inr vals \<Rightarrow>
          (case LabelEncoder_fit_transform sk vals of
             Inl e \<Rightarrow> Inl e
           | Inr label_encoded \<Rightarrow> OneHotEncoder_fit_transform sk label_encoded))"

text \<open>\<^verbatim>\<open>str(int(i))\<close>: the decimal digits of a natural number.\<close>

function str_nat :: "nat \<Rightarrow> string" where
  "str_nat n =
     (if n < 10 then [char_of (48 + n)] else str_nat (n div 10) @ [char_of (48 + n mod 10)])"
  by pat_completeness auto
termination
  by (relation "measure (\<lambda>n. n)") auto

text \<open>
  \<^verbatim>\<open>pd.concat([a, b], axis = 1)\<close>: the columns of both frames side by side, rows matched
  by index label (the labels of \<open>a\<close>, then those only \<open>b\<close> has), NaN where a frame has no
  row with the label.
\<close>

definition pd_concat_axis1 :: "dataframe \<Rightarrow> dataframe \<Rightarrow> dataframe" where
  "pd_concat_axis1 a b =
     (let labels = map fst (rows a) @ filter (\<lambda>l. l \<notin> set (map fst (rows a))) (map fst (rows b))
      in \<lparr>columns = columns a @ columns b,
          dtypes = dtypes a @ dtypes b,
          rows = map (\<lambda>l. (l,
                   (case map_of (rows a) l of
                      Some r \<Rightarrow> r | None \<Rightarrow> replicate (length (columns a)) (Num NaN))
                   @ (case map_of (rows b) l of
                      Some r \<Rightarrow> r | None \<Rightarrow> replicate (length (columns b)) (Num NaN)))) labels\<rparr>)"

text \<open>\<^verbatim>\<open>shape[1]\<close> of a matrix: the length of its rows.\<close>

definition shape1 :: "'a list list \<Rightarrow> nat" where
  "shape1 m = (case m of [] \<Rightarrow> 0 | r # rs \<Rightarrow> length r)"

fun one_hot_loop :: "sklearn \<Rightarrow> dataframe \<Rightarrow> string list \<Rightarrow> dataframe \<Rightarrow> error + dataframe" where
  "one_hot_loop sk df [] df_hot = Inr df_hot"
| "one_hot_loop sk df (col # cols) df_hot =
     (case col_encoding sk df col of
        Inl e \<Rightarrow> Inl e
      | Inr encoded_matrix \<Rightarrow>
          (let names = map (\<lambda>i. col @ '' '' @ str_nat i) [0..<shape1 encoded_matrix];
               df' = frame_of_rows names (map (\<lambda>n. Float64) names)
                       (map (map Num) encoded_matrix)
           in one_hot_loop sk df cols (pd_concat_axis1 df_hot df')))"

definition one_hot_df :: "sklearn \<Rightarrow> ref \<Rightarrow> string list \<Rightarrow> store \<Rightarrow> (error + dataframe) \<times> store" where
  "one_hot_df sk df cat_col_list s = (one_hot_loop sk (s ! df) cat_col_list pd_DataFrame, s)"

section \<open>Loading the GO annotations\<close>

text \<open>
  The files that \<^verbatim>\<open>read_csv\<close> can read, each as the table it parses to. \<^verbatim>\<open>str(x)\<close> of
  a string is the string; how Python prints a double is a parameter (\<open>str_float\<close>).
  \<^verbatim>\<open>lower\<close> is modelled on ASCII letters.
\<close>

type_synonym files = "string \<Rightarrow> dataframe option"

definition char_lower :: "char \<Rightarrow> char" where
  "char_lower c =
     (if 65 \<le> (of_char c :: nat) \<and> (of_char c :: nat) \<le> 90 then char_of (of_char c + 32 :: nat) else c)"

definition lower :: "string \<Rightarrow> string" where
  "lower x = map char_lower x"

fun dtype_name :: "dtype \<Rightarrow> string" where
  "dtype_name Bool = ''bool''"
| "dtype_name Int64 = ''int64''"
| "dtype_name Float64 = ''float64''"
| "dtype_name Object = ''object''"

fun py_str :: "(float64 \<Rightarrow> string) \<Rightarrow> cell \<Rightarrow> string" where
  "py_str str_float (Str x) = x"
| "py_str str_float (Num x) = str_float x"
| "py_str str_float (Dt t) = dtype_name t"

definition lower_strings :: "(float64 \<Rightarrow> string) \<Rightarrow> cell list \<Rightarrow> cell list" where
  "lower_strings str_float string_list = map (\<lambda>x. Str (lower (py_str str_float x))) string_list"

definition load_gene_ontology_data :: "files \<Rightarrow> store \<Rightarrow> (error + ref) \<times> store" where
  "load_gene_ontology_data fs s =
     (case fs ''../data/GO_annotations_ecoli.csv'' of
        None \<Rightarrow> (Inl (FileNotFoundError ''../data/GO_annotations_ecoli.csv''), s)
      | Some table \<Rightarrow> (let (gene_ontology_data, s') = alloc table s in (Inr gene_ontology_data, s')))"

text \<open>Assignment to a column, \<^verbatim>\<open>df[name] = values\<close>, overwriting the cells at position \<open>i\<close>.\<close>

definition set_column :: "dataframe \<Rightarrow> nat \<Rightarrow> cell list \<Rightarrow> dataframe" where
  "set_column df i vals =
     df\<lparr>dtypes := (dtypes df)[i := Object],
        rows := map (\<lambda>(r, v). (fst r, (snd r)[i := v])) (zip (rows df) vals)\<rparr>"

text \<open>
  \<^verbatim>\<open>get_GO_gene_set\<close>. Its first statement binds the parameter \<^verbatim>\<open>gene_ontology_data\<close> to
  the frame loaded from disk; the value passed in is of any type \<open>'a\<close>.
\<close>

definition get_GO_gene_set ::
  "files \<Rightarrow> (float64 \<Rightarrow> string) \<Rightarrow> 'a \<Rightarrow> string list \<Rightarrow> store \<Rightarrow> (error + ref) \<times> store" where
  "get_GO_gene_set fs str_float gene_ontology_data test_gene_list s =
     (case load_gene_ontology_data fs s of
        (Inl e, s1) \<Rightarrow> (Inl e, s1)
      | (Inr gene_ontology_data', s1) \<Rightarrow>
          (case getattr_values (s1 ! gene_ontology_data') ''gene_name'' of
             Inl e \<Rightarrow> (Inl e, s1)
           | Inr vals \<Rightarrow>
               (case index_of ''gene_name'' (columns (s1 ! gene_ontology_data')) of
                  None \<Rightarrow> (Inl (AttributeError ''gene_name''), s1)
                | Some i \<Rightarrow>
                    (let s2 = s1[gene_ontology_data' :=
                                 set_column (s1 ! gene_ontology_data') i (lower_strings str_float vals)]
                     in get_gene_data gene_ontology_data' ''gene_name'' test_gene_list s2))))"

section \<open>Download and denoising\<close>

text \<open>
  \<^verbatim>\<open>download_and_preprocess_data\<close> acts on the file system: \<open>files\<close> maps the name of a
  file to the table that \<^verbatim>\<open>read_csv\<close> reads from it. The operating system is a parameter:
  what a shell command does to the files is the affair of the programs it runs
  (\<^verbatim>\<open>wget\<close>, \<^verbatim>\<open>unzip\<close>; the exit status is not looked at), \<open>userhome\<close> gives the home
  directory of a user (of the current user for the empty name), and \<open>can_create\<close> says
  whether a file of that name can be created or overwritten (its directory exists and
  may be written to).
\<close>

record os_env =
  os_system :: "string \<Rightarrow> files \<Rightarrow> files"
  userhome :: "string \<Rightarrow> string option"
  can_create :: "string \<Rightarrow> bool"

text \<open>
  \<^verbatim>\<open>os.path.expanduser\<close>, which pandas applies to every path it is given: a leading
  \<^verbatim>\<open>~\<close> or \<^verbatim>\<open>~user\<close> is replaced by that user's home directory, when there is one.
\<close>

definition expanduser :: "(string \<Rightarrow> string option) \<Rightarrow> string \<Rightarrow> string" where
  "expanduser home path =
     (if take 1 path \<noteq> ''~'' then path
      else (let name = takeWhile (\<lambda>c. c \<noteq> CHR ''/'') (drop 1 path);
                rest = dropWhile (\<lambda>c. c \<noteq> CHR ''/'') (drop 1 path)
            in case home name of
                 None \<Rightarrow> path
               | Some dir \<Rightarrow>
                   (let p = rev (dropWhile (\<lambda>c. c = CHR ''/'') (rev dir)) @ rest
                    in if p = [] then ''/'' else p)))"

text \<open>\<^verbatim>\<open>df.rename(columns = {old: new}, inplace = True)\<close>; a label that is absent is no error.\<close>

definition rename_columns :: "dataframe \<Rightarrow> string \<Rightarrow> string \<Rightarrow> dataframe" where
  "rename_columns df old new = df\<lparr>columns := map (\<lambda>c. if c = old then new else c) (columns df)\<rparr>"

text \<open>\<^verbatim>\<open>x.lower()\<close> on a cell: only a string has the method.\<close>

fun cell_lower :: "cell \<Rightarrow> error + cell" where
  "cell_lower (Str x) = Inr (Str (lower x))"
| "cell_lower c = Inl (AttributeError ''lower'')"

fun apply_lower :: "cell list \<Rightarrow> error + cell list" where
  "apply_lower [] = Inr []"
| "apply_lower (x # xs) =
     (case cell_lower x of
        Inl e \<Rightarrow> Inl e
      | Inr y \<Rightarrow> (case apply_lower xs of Inl e \<Rightarrow> Inl e | Inr ys \<Rightarrow> Inr (y # ys)))"

text \<open>
  \<^verbatim>\<open>df['gene name'] = df['gene name'].apply(lambda x: x.lower())\<close>. With the label on
  several columns the selection is a frame, and \<^verbatim>\<open>apply\<close> hands whole columns to the lambda.
\<close>

definition lower_gene_name :: "dataframe \<Rightarrow> error + dataframe" where
  "lower_gene_name df =
     (if count_list (columns df) ''gene name'' > 1 then Inl (AttributeError ''lower'')
      else case getitem_values df ''gene name'' of
             Inl e \<Rightarrow> Inl e
           | Inr vals \<Rightarrow>
               (case apply_lower vals of
                  Inl e \<Rightarrow> Inl e
                | Inr vals' \<Rightarrow>
                    (case index_of ''gene name'' (columns df) of
                       None \<Rightarrow> Inl (KeyError (Str ''gene name''))
                     | Some i \<Rightarrow> Inr (set_column df i vals'))))"

text \<open>\<^verbatim>\<open>df.iloc[:, :k]\<close> and \<^verbatim>\<open>df.iloc[:, k:]\<close>\<close>

definition iloc_cols_to :: "dataframe \<Rightarrow> nat \<Rightarrow> dataframe" where
  "iloc_cols_to df k =
     \<lparr>columns = take k (columns df), dtypes = take k (dtypes df),
      rows = map (\<lambda>r. (fst r, take k (snd r))) (rows df)\<rparr>"

definition iloc_cols_from :: "dataframe \<Rightarrow> nat \<Rightarrow> dataframe" where
  "iloc_cols_from df k =
     \<lparr>columns = drop k (columns df), dtypes = drop k (dtypes df),
      rows = map (\<lambda>r. (fst r, drop k (snd r))) (rows df)\<rparr>"

text \<open>
  The body of the function from \<^verbatim>\<open>annot = df.iloc[:, :3]\<close> to the lower-casing of the gene
  names: scaling, PCA and back (\<^verbatim>\<open>fit\<close> and \<^verbatim>\<open>fit_transform\<close> on the same data are one step
  here), the reconstructed matrix as a frame under the data columns' labels (a ValueError
  when its width is another), then the annotation columns beside it.
\<close>

definition denoised :: "sklearn \<Rightarrow> float64 \<Rightarrow> dataframe \<Rightarrow> error + dataframe" where
  "denoised sk variance_ratio df =
     (let annot = iloc_cols_to df 3;
          data = iloc_cols_from df 3
      in case preprocess_fit_transform sk (map snd (rows data)) of
           Inl e \<Rightarrow> Inl e
         | Inr scaled_data \<Rightarrow>
             (case PCA_fit_transform sk variance_ratio scaled_data of
                Inl e \<Rightarrow> Inl e
              | Inr projected \<Rightarrow>
                  (case PCA_inverse_transform sk variance_ratio scaled_data projected of
                     Inl e \<Rightarrow> Inl e
                   | Inr reconstructed \<Rightarrow>
                       if list_all (\<lambda>r. length r = length (columns data)) reconstructed then
                         (let reconstructed_df =
                                frame_of_rows (columns data) (map (\<lambda>c. Float64) (columns data))
                                  (map (map Num) reconstructed);
                              denoised_df = pd_concat_axis1 annot reconstructed_df
                          in lower_gene_name denoised_df)
                       else Inl (ValueError ''Shape of passed values''))))"

text \<open>
  \<^verbatim>\<open>df.to_csv(path, index = index)\<close>: an OSError when the file cannot be created;
  otherwise the file then holds the table, with the index labels as its first column for
  \<^verbatim>\<open>index = True\<close> and without them for \<^verbatim>\<open>index = False\<close>.
\<close>

definition csv_table :: "dataframe \<Rightarrow> bool \<Rightarrow> dataframe" where
  "csv_table df index =
     (if index
      then \<lparr>columns = ''Unnamed: 0'' # columns df, dtypes = Int64 # dtypes df,
            rows = zip [0..<length (rows df)]
                     (map (\<lambda>r. Num (Fin (of_nat (fst r))) # snd r) (rows df))\<rparr>
      else \<lparr>columns = columns df, dtypes = dtypes df,
            rows = zip [0..<length (rows df)] (map snd (rows df))\<rparr>)"

definition to_csv :: "os_env \<Rightarrow> dataframe \<Rightarrow> string \<Rightarrow> bool \<Rightarrow> files \<Rightarrow> error + files" where
  "to_csv env df path index fs =
     (let file = expanduser (userhome env) path
      in if can_create env file then Inr (fs(file \<mapsto> csv_table df index))
         else Inl (OSError file))"

text \<open>\<^verbatim>\<open>pd.read_csv(path, sep = '\t', skiprows = np.arange(6))\<close>\<close>

definition read_csv :: "os_env \<Rightarrow> files \<Rightarrow> string \<Rightarrow> error + dataframe" where
  "read_csv env fs path =
     (case fs (expanduser (userhome env) path) of
        None \<Rightarrow> Inl (FileNotFoundError path)
      | Some table \<Rightarrow> Inr table)"

text \<open>
  The function returns nothing; its result here is Python's None (\<open>None\<close>) and the file
  system it leaves behind. The \<^verbatim>\<open>try\<close> around the second \<^verbatim>\<open>rename\<close> guards a call that does
  not raise.
\<close>

definition download_cmd :: "string \<Rightarrow> string" where
  "download_cmd org = ''wget http://colombos.net/cws_data/compendium_data/'' @ org @ ''_compendium_data.zip''"

definition unzip_cmd :: "string \<Rightarrow> string" where
  "unzip_cmd org = ''unzip '' @ org @ ''_compendium_data.zip''"

definition download_and_preprocess_data ::
  "sklearn \<Rightarrow> os_env \<Rightarrow> string \<Rightarrow> string option \<Rightarrow> float64 \<Rightarrow> string \<Rightarrow> files
     \<Rightarrow> (error + dataframe option) \<times> files" where
  "download_and_preprocess_data sk env org data_dir variance_ratio output_path fs =
     (let (loaded, fs') =
            (case data_dir of
               None \<Rightarrow>
                 (let fs1 = os_system env (download_cmd org) fs;
                      fs2 = os_system env (unzip_cmd org) fs1
                  in case read_csv env fs2 (''colombos_'' @ org @ ''_exprdata_20151029.txt'') of
                       Inl e \<Rightarrow> (Inl e, fs2)
                     | Inr df \<Rightarrow> (lower_gene_name (rename_columns df ''Gene name'' ''gene name''), fs2))
             | Some path \<Rightarrow>
                 (case read_csv env fs path of
                    Inl e \<Rightarrow> (Inl e, fs)
                  | Inr df \<Rightarrow> (Inr (rename_columns df ''Gene name'' ''gene name''), fs)))
      in case loaded of
           Inl e \<Rightarrow> (Inl e, fs')
         | Inr df \<Rightarrow>
             (case denoised sk variance_ratio df of
                Inl e \<Rightarrow> (Inl e, fs')
              | Inr denoised_df \<Rightarrow>
                  (case to_csv env denoised_df (output_path @ ''denoised_'' @ org @ ''.csv'') False fs' of
                     Inl e \<Rightarrow> (Inl e, fs')
                   | Inr fs'' \<Rightarrow> (Inr None, fs''))))"

section \<open>GO enrichment: threshold step\<close>

text \<open>
  \<^verbatim>\<open>value_counts\<close>: the distinct non-null values with the number of their occurrences,
  in order of first appearance (\<^verbatim>\<open>sort=False\<close>), or by falling count (the default):
  pandas sorts by rising count and reverses, so that values with the same count come in
  the reverse of their first appearance (for the short arrays that numpy sorts by
  insertion; in a long array numpy's quicksort decides the order among equal counts).
\<close>

definition value_counts :: "cell list \<Rightarrow> (cell \<times> nat) list" where
  "value_counts vals =
     (let vs = filter notnull vals in map (\<lambda>v. (v, count_list vs v)) (uniques vs))"

definition value_counts_sorted :: "cell list \<Rightarrow> (cell \<times> nat) list" where
  "value_counts_sorted vals = rev (sort_key snd (value_counts vals))"

text \<open>
  \<^verbatim>\<open>get_hi_GOs\<close> returns what it prints and its return value (\<open>None\<close> for Python's
  None). The threshold \<^verbatim>\<open>int(GO_gene_set.shape[0] * 0.10)\<close> is the row count divided by
  ten, rounded down: the double nearest to 0.10 exceeds one tenth by less than
  \<^verbatim>\<open>6e-18\<close>, and the product is rounded by a relative \<^verbatim>\<open>2e-16\<close> at most, so for every
  row count that fits a machine's memory the rounded product is at least the exact tenth
  rounded down and less than the next integer.
\<close>

definition get_hi_GOs :: "dataframe \<Rightarrow> error + (string list \<times> cell list option)" where
  "get_hi_GOs GO_gene_set =
     (let thr = length (rows GO_gene_set) div 10
      in if length (rows GO_gene_set) > 1 then
           (case getattr_values GO_gene_set ''GO_ID'' of
              Inl e \<Rightarrow> Inl e
            | Inr go_ids \<Rightarrow>
                (let hi_indices = map (\<lambda>c. c > thr) (map snd (value_counts_sorted go_ids));
                     hi_GO_ids = mask_select (map fst (value_counts_sorted go_ids)) hi_indices
                 in if length hi_GO_ids > 0 then Inr ([], Some hi_GO_ids)
                    else Inr ([''No enriched functions found.''], None)))
         else Inr ([''No enriched functions found.''], None))"

section \<open>GO enrichment: hypergeometric test\<close>

text \<open>
  Arithmetic and comparison of doubles, with IEEE's rules for NaN and the infinities. The
  sum of two finite doubles is their exact sum: neither the rounding of the result nor its
  overflow to an infinity is modelled.
\<close>

fun fadd :: "float64 \<Rightarrow> float64 \<Rightarrow> float64" where
  "fadd NaN y = NaN"
| "fadd x NaN = NaN"
| "fadd PInf NInf = NaN"
| "fadd NInf PInf = NaN"
| "fadd PInf y = PInf"
| "fadd x PInf = PInf"
| "fadd NInf y = NInf"
| "fadd x NInf = NInf"
| "fadd (Fin a) (Fin b) = Fin (a + b)"

fun flt :: "float64 \<Rightarrow> float64 \<Rightarrow> bool" where
  "flt NaN y = False"
| "flt x NaN = False"
| "flt x NInf = False"
| "flt PInf y = False"
| "flt NInf y = True"
| "flt x PInf = True"
| "flt (Fin a) (Fin b) = (a < b)"

definition np_sum :: "float64 list \<Rightarrow> float64" where
  "np_sum xs = foldl fadd (Fin 0) xs"

text \<open>
  \<^verbatim>\<open>np.empty(len)\<close> hands out a buffer without initialising it. What the buffer holds is
  not decided by the program: \<open>slots j\<close> stands for whatever slot \<open>j\<close> holds.
\<close>

definition np_empty :: "(nat \<Rightarrow> float64) \<Rightarrow> nat \<Rightarrow> float64 list" where
  "np_empty slots len = map slots [0..<len]"

text \<open>
  \<^verbatim>\<open>scipy.stats.hypergeom.pmf(k, M, n, N)\<close>: the probability of \<open>k\<close> marked items in a
  sample of \<open>N\<close> drawn without replacement from \<open>M\<close> items of which \<open>n\<close> are marked; NaN
  for parameters that are no distribution.
\<close>

definition hypergeom_pmf :: "nat \<Rightarrow> nat \<Rightarrow> nat \<Rightarrow> nat \<Rightarrow> float64" where
  "hypergeom_pmf k M n N =
     (if M = 0 \<or> n > M \<or> N > M then NaN
      else if k > N then Fin 0
      else Fin (of_nat ((n choose k) * ((M - n) choose (N - k))) / of_nat (M choose N)))"

text \<open>
  \<^verbatim>\<open>pd.value_counts(df['GO_ID'].values, sort=False)[key]\<close>: KeyError without the column,
  and for a key that is none of the counted values.
\<close>

definition count_of :: "dataframe \<Rightarrow> cell \<Rightarrow> error + nat" where
  "count_of df key =
     (case getitem_values df ''GO_ID'' of
        Inl e \<Rightarrow> Inl e
      | Inr vals \<Rightarrow>
          (case map_of (value_counts vals) key of
             None \<Rightarrow> Inl (KeyError key)
           | Some c \<Rightarrow> Inr c))"

text \<open>
  The loop \<^verbatim>\<open>for i, hi_GO in enumerate(hi_GO_ids)\<close>, returning the filled \<^verbatim>\<open>p_vals\<close>.
  \<open>uninit i\<close> is the content of the buffer that \<^verbatim>\<open>np.empty\<close> hands out in pass \<open>i\<close>.
\<close>

fun p_val_loop :: "(nat \<Rightarrow> nat \<Rightarrow> float64) \<Rightarrow> dataframe \<Rightarrow> dataframe \<Rightarrow> nat \<Rightarrow> nat \<Rightarrow> nat
    \<Rightarrow> cell list \<Rightarrow> error + float64 list" where
  "p_val_loop uninit gene_ontology_data GO_gene_set n M i [] = Inr []"
| "p_val_loop uninit gene_ontology_data GO_gene_set n M i (hi_GO # rest) =
     (case count_of GO_gene_set hi_GO of
        Inl e \<Rightarrow> Inl e
      | Inr w \<Rightarrow>
          (let b = length (rows GO_gene_set) - w
           in case count_of gene_ontology_data hi_GO of
                Inl e \<Rightarrow> Inl e
              | Inr w_genome \<Rightarrow>
                  (let b_genome = length (rows gene_ontology_data) - w_genome;
                       hypergeom_pmfs = np_empty (uninit i) (n - w + 1);
                       pmfs = map (\<lambda>k. hypergeom_pmf k M w_genome n) [w..<n + 1];
                       p_val = np_sum hypergeom_pmfs
                   in case p_val_loop uninit gene_ontology_data GO_gene_set n M (i + 1) rest of
                        Inl e \<Rightarrow> Inl e
                      | Inr p_vals \<Rightarrow> Inr (p_val # p_vals))))"

text \<open>\<^verbatim>\<open>pd.DataFrame({'GO_ID': significant_GOs, 'p_val': significant_pvals})\<close>\<close>

definition GO_summary :: "cell list \<Rightarrow> float64 list \<Rightarrow> dataframe" where
  "GO_summary gos pvals =
     \<lparr>columns = [''GO_ID'', ''p_val''], dtypes = [Object, Float64],
      rows = zip [0..<length gos] (map (\<lambda>(g, p). [g, Num p]) (zip gos pvals))\<rparr>"

definition get_hyper_test_p_value ::
  "(nat \<Rightarrow> nat \<Rightarrow> float64) \<Rightarrow> dataframe \<Rightarrow> dataframe \<Rightarrow> cell list option
     \<Rightarrow> error + (string list \<times> dataframe option)" where
  "get_hyper_test_p_value uninit gene_ontology_data GO_gene_set hi_GO_ids =
     (case hi_GO_ids of
        None \<Rightarrow> Inr ([''Enrichment test did not run.''], None)
      | Some ids \<Rightarrow>
          if length ids > 0 then
            (let n = length (rows GO_gene_set);
                 M = length (rows gene_ontology_data)
             in case p_val_loop uninit gene_ontology_data GO_gene_set n M 0 ids of
                  Inl e \<Rightarrow> Inl e
                | Inr p_vals \<Rightarrow>
                    (let significant_indices = map (\<lambda>p. flt p (Fin 0.05)) p_vals;
                         significant_pvals = mask_select p_vals significant_indices;
                         significant_GOs = mask_select ids significant_indices;
                         GO_summary_df = GO_summary significant_GOs significant_pvals
                     in case pd_merge GO_summary_df GO_gene_set ''GO_ID'' of
                          Inl e \<Rightarrow> Inl e
                        | Inr summary_df \<Rightarrow>
                            Inr ([''Enrichment test ran succesfully!''], Some summary_df)))
          else Inr ([''Enrichment test did not run.''], None))"

text \<open>
  What the loop leaves in \<^verbatim>\<open>p_vals\<close> when every lookup succeeds: for the GO ID at
  position \<open>k\<close>, the sum of the buffer handed out in pass \<open>k\<close>.
\<close>

definition computed_p_vals :: "(nat \<Rightarrow> nat \<Rightarrow> float64) \<Rightarrow> cell list \<Rightarrow> nat \<Rightarrow> nat \<Rightarrow> cell list \<Rightarrow> float64 list" where
  "computed_p_vals uninit set_ids n i ids =
     map (\<lambda>(k, g). np_sum (np_empty (uninit k) (n - count_list set_ids g + 1)))
       (zip [i..<i + length ids] ids)"

text \<open>
  The p-value in the words of the specification: the sum of the hypergeometric
  probabilities of \<open>k\<close> marked draws for \<open>k\<close> from \<open>w\<close> to \<open>n\<close>, in a sample of \<open>n\<close> from a
  population of \<open>M\<close> with \<open>K\<close> marked.
\<close>

definition spec_upper_tail_p_value :: "nat \<Rightarrow> nat \<Rightarrow> nat \<Rightarrow> nat \<Rightarrow> float64" where
  "spec_upper_tail_p_value w n M K = np_sum (map (\<lambda>k. hypergeom_pmf k M K n) [w..<n + 1])"

text \<open>
  The significance cut and the merge in the words of the specification: the pairs of a GO
  ID and its p-value with the p-value below 0.05, and the inner join of these pairs with
  the rows of the gene set that carry the same GO ID (\<open>j\<close> is the position of the
  \<^verbatim>\<open>GO_ID\<close> column).
\<close>

definition spec_significant :: "cell list \<Rightarrow> float64 list \<Rightarrow> (cell \<times> float64) list" where
  "spec_significant ids p_vals = filter (\<lambda>(g, p). flt p (Fin 0.05)) (zip ids p_vals)"

definition spec_inner_merge :: "(cell \<times> float64) list \<Rightarrow> dataframe \<Rightarrow> nat \<Rightarrow> cell list list" where
  "spec_inner_merge sig df j =
     concat (map (\<lambda>(g, p). map (\<lambda>r. [g, Num p] @ drop_nth j (snd r))
                              (filter (\<lambda>r. snd r ! j = g) (rows df))) sig)"

text \<open>
  The rows that the loop lays end to end: for every value of the gene column that is in
  the list, in order and with repetitions, all rows of the frame with that value.
\<close>

definition matching :: "dataframe \<Rightarrow> nat \<Rightarrow> string list \<Rightarrow> cell list \<Rightarrow> (nat \<times> cell list) list" where
  "matching df i tgl gs =
     concat (map (\<lambda>g. filter (\<lambda>r. cell_eq (snd r ! i) g) (rows df)) (filter (\<lambda>g. py_in g tgl) gs))"

section \<open>Properties\<close>

subsection \<open>The missing-data check\<close>

text \<open>
  Claim C6: \<^verbatim>\<open>test_missing_data(df, fname)\<close> raises the AssertionError with message
  \<^verbatim>\<open>fname + ' contains missing data'\<close> exactly when some entry of the dataframe is
  null, and otherwise returns normally (None).
\<close>

theorem test_missing_data_iff_null:
  "test_missing_data df fname =
     (if (\<exists>r \<in> set (rows df). Num NaN \<in> set (snd r))
      then Inl (AssertionError (fname @ '' contains missing data''))
      else Inr ())"
  by (auto simp: test_missing_data_def np_all_def df_notnull_def notnull_def list_all_iff)

theorem test_missing_data_iff_null_witness:
  "test_missing_data \<lparr>columns = [''a'', ''b''], dtypes = [Object, Float64],
       rows = [(0, [Str ''x'', Num (Fin 1)]), (1, [Str ''y'', Num NaN])]\<rparr> ''go.csv''
     = Inl (AssertionError ''go.csv contains missing data'')
   \<and> test_missing_data \<lparr>columns = [''a'', ''b''], dtypes = [Object, Float64],
       rows = [(0, [Str ''x'', Num (Fin 1)]), (1, [Str ''y'', Num PInf])]\<rparr> ''go.csv''
     = Inr ()"
  using test_missing_data_iff_null
          [of "\<lparr>columns = [''a'', ''b''], dtypes = [Object, Float64],
                rows = [(0, [Str ''x'', Num (Fin 1)]), (1, [Str ''y'', Num NaN])]\<rparr>" "''go.csv''"]
        test_missing_data_iff_null
          [of "\<lparr>columns = [''a'', ''b''], dtypes = [Object, Float64],
                rows = [(0, [Str ''x'', Num (Fin 1)]), (1, [Str ''y'', Num PInf])]\<rparr>" "''go.csv''"]
  by simp

subsection \<open>Lists, masks and duplicates\<close>

lemma index_of_None: "(index_of x xs = None) = (x \<notin> set xs)"
  by (induction xs) auto

lemma index_of_Some: "index_of x xs = Some i \<Longrightarrow> i < length xs \<and> xs ! i = x"
  by (induction xs arbitrary: i) (auto split: if_splits)

lemma index_of_nth: "distinct xs \<Longrightarrow> i < length xs \<Longrightarrow> index_of (xs ! i) xs = Some i"
proof (induction xs arbitrary: i)
  case Nil
  then show ?case by simp
next
  case (Cons y ys)
  show ?case
  proof (cases i)
    case 0
    then show ?thesis by simp
  next
    case (Suc j)
    with Cons.prems have "j < length ys" "ys ! j \<in> set ys" "y \<notin> set ys" "distinct ys" by auto
    with Cons.IH[of j] Suc show ?thesis by auto
  qed
qed

lemma reindex_row_id:
  assumes "distinct cols" "length r = length cols"
  shows "reindex_row cols cols r = r"
  using assms by (auto simp: reindex_row_def index_of_nth intro!: nth_equalityI)

lemma mask_select_map: "mask_select xs (map P xs) = filter P xs"
  unfolding mask_select_def by (induction xs) auto

lemma getitem_mask_rows:
  "rows (getitem_mask df (series_eq (map (\<lambda>r. snd r ! i) (rows df)) g))
     = filter (\<lambda>r. cell_eq (snd r ! i) g) (rows df)"
proof -
  have "series_eq (map (\<lambda>r. snd r ! i) (rows df)) g = map (\<lambda>r. cell_eq (snd r ! i) g) (rows df)"
    by (simp add: series_eq_def)
  then show ?thesis by (simp add: getitem_mask_def mask_select_map)
qed

lemma first_occurrences_subset: "set (first_occurrences seen rs) \<subseteq> set rs"
  by (induction rs arbitrary: seen) auto

lemma first_occurrences_values:
  "snd ` set (first_occurrences seen rs) = snd ` set rs - set seen"
  by (induction rs arbitrary: seen) auto

lemma first_occurrences_distinct: "distinct (map snd (first_occurrences seen rs))"
proof (induction rs arbitrary: seen)
  case Nil
  then show ?case by simp
next
  case (Cons r rs)
  have "snd r \<notin> snd ` set (first_occurrences (snd r # seen) rs)"
    by (simp add: first_occurrences_values)
  with Cons show ?case by auto
qed

lemma pd_concat_same_columns:
  assumes "wf_df b" "columns a = columns b \<or> a = pd_DataFrame"
    "list_all (\<lambda>r. length (snd r) = length (columns b)) (rows a)"
  shows "columns (pd_concat a b) = columns b"
    and "rows (pd_concat a b) = rows a @ rows b"
proof -
  from assms(2) have cols: "columns a @ filter (\<lambda>c. c \<notin> set (columns a)) (columns b) = columns b"
    by (auto simp: pd_DataFrame_def)
  then show "columns (pd_concat a b) = columns b" by (simp add: pd_concat_def Let_def)
  have rb: "map (\<lambda>r. (fst r, reindex_row (columns b) (columns b) (snd r))) (rows b) = rows b"
    using assms(1) by (intro map_idI) (auto simp: wf_df_def list_all_iff reindex_row_id)
  have ra: "map (\<lambda>r. (fst r, reindex_row (columns a) (columns b) (snd r))) (rows a) = rows a"
    using assms by (intro map_idI) (auto simp: wf_df_def list_all_iff reindex_row_id pd_DataFrame_def)
  show "rows (pd_concat a b) = rows a @ rows b"
    by (simp add: pd_concat_def Let_def cols ra rb)
qed

subsection \<open>The gene filter\<close>

lemma gene_loop_inv:
  assumes "data < length s" "gp < length s" "wf_df (s ! data)"
    "index_of col (columns (s ! data)) = Some i"
    "columns (s ! gp) = columns (s ! data) \<or> s ! gp = pd_DataFrame"
    "set (rows (s ! gp)) \<subseteq> set (rows (s ! data))"
  shows "\<exists>gp' s'. gene_loop data col tgl gs gp s = (Inr gp', s')
           \<and> gp' < length s' \<and> take (length s) s' = s \<and> (gp' = gp \<or> length s \<le> gp')
           \<and> rows (s' ! gp') = rows (s ! gp) @ matching (s ! data) i tgl gs
           \<and> (columns (s' ! gp') = columns (s ! data) \<or> s' ! gp' = pd_DataFrame)
           \<and> (filter (\<lambda>g. py_in g tgl) gs = [] \<longrightarrow> gp' = gp \<and> s' = s)"
  using assms
proof (induction gs arbitrary: gp s)
  case Nil
  then show ?case by (simp add: matching_def)
next
  case (Cons g gs)
  show ?case
  proof (cases "py_in g tgl")
    case False
    with Cons.IH[OF Cons.prems] show ?thesis by (simp add: matching_def)
  next
    case True
    let ?df = "s ! data"
    let ?vals = "map (\<lambda>r. snd r ! i) (rows ?df)"
    let ?sel = "filter (\<lambda>r. cell_eq (snd r ! i) g) (rows ?df)"
    let ?df' = "getitem_mask ?df (series_eq ?vals g)"
    let ?new = "pd_concat (s ! gp) ?df'"
    let ?s' = "s @ [?new]"
    have gv: "getitem_values ?df col = Inr ?vals"
      using Cons.prems(4) by (simp add: getitem_values_def)
    have rows': "rows ?df' = ?sel" by (rule getitem_mask_rows)
    have cols': "columns ?df' = columns ?df" by (simp add: getitem_mask_def)
    have wf': "wf_df ?df'"
      using Cons.prems(3) by (auto simp: wf_df_def list_all_iff getitem_mask_def mask_select_def dest!: set_zip_leftD)
    have len_gp: "list_all (\<lambda>r. length (snd r) = length (columns ?df')) (rows (s ! gp))"
      using Cons.prems(3,6) by (auto simp: wf_df_def list_all_iff cols')
    have c1: "columns (s ! gp) = columns ?df' \<or> s ! gp = pd_DataFrame"
      using Cons.prems(5) by (simp add: cols')
    have ncols: "columns ?new = columns ?df"
      using pd_concat_same_columns(1)[OF wf' c1 len_gp] by (simp add: cols')
    have nrows: "rows ?new = rows (s ! gp) @ ?sel"
      using pd_concat_same_columns(2)[OF wf' c1 len_gp] by (simp add: rows')
    have step: "gene_loop data col tgl (g # gs) gp s = gene_loop data col tgl gs (length s) ?s'"
      using True gv by (simp add: alloc_def Let_def)
    have d': "?s' ! data = ?df" using Cons.prems(1) by (simp add: nth_append)
    have g': "?s' ! length s = ?new" by simp
    have p1: "data < length ?s'" using Cons.prems(1) by simp
    have p2: "length s < length ?s'" by simp
    have p3: "wf_df (?s' ! data)" using Cons.prems(3) d' by simp
    have p4: "index_of col (columns (?s' ! data)) = Some i" using Cons.prems(4) d' by simp
    have p5: "columns (?s' ! length s) = columns (?s' ! data) \<or> ?s' ! length s = pd_DataFrame"
      using ncols d' g' by simp
    have p6: "set (rows (?s' ! length s)) \<subseteq> set (rows (?s' ! data))"
      using nrows Cons.prems(6) d' g' by auto
    from Cons.IH[OF p1 p2 p3 p4 p5 p6] obtain gp' s'' where
      r: "gene_loop data col tgl gs (length s) ?s' = (Inr gp', s'')"
      and b: "gp' < length s''" and t: "take (length ?s') s'' = ?s'"
      and o: "gp' = length s \<or> length ?s' \<le> gp'"
      and rw: "rows (s'' ! gp') = rows (?s' ! length s) @ matching (?s' ! data) i tgl gs"
      and cl: "columns (s'' ! gp') = columns (?s' ! data) \<or> s'' ! gp' = pd_DataFrame"
      by blast
    have t': "take (length s) s'' = s"
    proof -
      have "take (length s) (take (length ?s') s'') = take (length s) ?s'"
        by (rule arg_cong[OF t])
      then show ?thesis by (simp add: min_def)
    qed
    have rw': "rows (s'' ! gp') = rows (s ! gp) @ matching ?df i tgl (g # gs)"
      using rw True by (simp add: g' d' nrows matching_def)
    from step r b t' o rw' cl d' True show ?thesis by auto
  qed
qed

lemma gene_loop_frame:
  "gene_loop data col tgl gs gp s = (r, s') \<Longrightarrow>
     take (length s) s' = s \<and> (\<forall>gp'. r = Inr gp' \<longrightarrow> gp' = gp \<or> length s \<le> gp')"
proof (induction gs arbitrary: gp s)
  case Nil
  then show ?case by auto
next
  case (Cons g gs)
  show ?case
  proof (cases "py_in g tgl")
    case False
    with Cons show ?thesis by simp
  next
    case True
    show ?thesis
    proof (cases "getitem_values (s ! data) col")
      case (Inl e)
      with True Cons.prems show ?thesis by auto
    next
      case (Inr vals)
      let ?s1 = "s @ [pd_concat (s ! gp) (getitem_mask (s ! data) (series_eq vals g))]"
      from True Inr Cons.prems have "gene_loop data col tgl gs (length s) ?s1 = (r, s')"
        by (simp add: alloc_def Let_def)
      from Cons.IH[OF this] have t: "take (length ?s1) s' = ?s1"
        and o: "\<forall>gp'. r = Inr gp' \<longrightarrow> gp' = length s \<or> length ?s1 \<le> gp'" by auto
      have "take (length s) (take (length ?s1) s') = take (length s) ?s1"
        by (rule arg_cong[OF t])
      then have "take (length s) s' = s" by (simp add: min_def)
      with o show ?thesis by auto
    qed
  qed
qed

lemma set_matching:
  "set (matching df i tgl (map (\<lambda>r. snd r ! i) (rows df)))
     = {r \<in> set (rows df). py_in (snd r ! i) tgl}"
proof -
  have "\<And>c. py_in c tgl \<Longrightarrow> cell_eq c c"
    by (case_tac c) (auto simp: cell_eq_def)
  then show ?thesis
    by (auto simp: matching_def cell_eq_def)
qed

text \<open>
  Claim C5: on a well-formed dataframe that has the named column (at position \<open>i\<close>),
  \<^verbatim>\<open>get_gene_data\<close> returns a new dataframe whose rows are rows of the input (index
  label included), whose rows' values are exactly the values of the input rows with a
  gene of the list in that column, and no two of whose rows have the same values. With no
  such row the result is the empty dataframe \<^verbatim>\<open>pd.DataFrame()\<close>; otherwise it has the
  input's columns.
\<close>

theorem get_gene_data_result:
  assumes "data < length s" "wf_df (s ! data)"
    "index_of gene_name_column (columns (s ! data)) = Some i"
  shows "\<exists>gp s'. get_gene_data data gene_name_column test_gene_list s = (Inr gp, s')
      \<and> gp < length s'
      \<and> set (rows (s' ! gp)) \<subseteq> set (rows (s ! data))
      \<and> snd ` set (rows (s' ! gp))
           = snd ` set (filter (\<lambda>r. py_in (snd r ! i) test_gene_list) (rows (s ! data)))
      \<and> distinct (map snd (rows (s' ! gp)))
      \<and> (if \<exists>r \<in> set (rows (s ! data)). py_in (snd r ! i) test_gene_list
          then columns (s' ! gp) = columns (s ! data)
          else s' ! gp = pd_DataFrame)"
proof -
  let ?df = "s ! data"
  let ?s1 = "s @ [pd_DataFrame]"
  let ?vals = "map (\<lambda>r. snd r ! i) (rows ?df)"
  let ?M = "matching ?df i test_gene_list ?vals"
  have d1: "?s1 ! data = ?df" using assms(1) by (simp add: nth_append)
  have gv: "getitem_values (?s1 ! data) gene_name_column = Inr ?vals"
    using assms(3) d1 by (simp add: getitem_values_def)
  have p1: "data < length ?s1" using assms(1) by simp
  have p2: "length s < length ?s1" by simp
  have p3: "wf_df (?s1 ! data)" using assms(2) d1 by simp
  have p4: "index_of gene_name_column (columns (?s1 ! data)) = Some i" using assms(3) d1 by simp
  have p5: "columns (?s1 ! length s) = columns (?s1 ! data) \<or> ?s1 ! length s = pd_DataFrame" by simp
  have p6: "set (rows (?s1 ! length s)) \<subseteq> set (rows (?s1 ! data))" by (simp add: pd_DataFrame_def)
  from gene_loop_inv[OF p1 p2 p3 p4 p5 p6, of test_gene_list ?vals] obtain gp s2 where
    r: "gene_loop data gene_name_column test_gene_list ?vals (length s) ?s1 = (Inr gp, s2)"
    and b: "gp < length s2"
    and rw: "rows (s2 ! gp) = rows (?s1 ! length s) @ matching (?s1 ! data) i test_gene_list ?vals"
    and cl: "columns (s2 ! gp) = columns (?s1 ! data) \<or> s2 ! gp = pd_DataFrame"
    and nop: "filter (\<lambda>g. py_in g test_gene_list) ?vals = [] \<longrightarrow> gp = length s \<and> s2 = ?s1"
    by blast
  let ?res = "drop_duplicates (s2 ! gp)"
  let ?s3 = "s2[gp := ?res]"
  have run: "get_gene_data data gene_name_column test_gene_list s = (Inr gp, ?s3)"
    using gv r by (simp add: get_gene_data_def alloc_def)
  have res: "?s3 ! gp = ?res" using b by simp
  have rw': "rows (s2 ! gp) = ?M" using rw d1 by (simp add: pd_DataFrame_def)
  have setM: "set ?M = {r \<in> set (rows ?df). py_in (snd r ! i) test_gene_list}"
    by (rule set_matching)
  have ne: "columns ?df \<noteq> []" using assms(3) by auto
  have rres: "rows ?res = first_occurrences [] ?M"
    using rw' by (auto simp: drop_duplicates_def) (use cl d1 ne rw' in \<open>auto simp: pd_DataFrame_def\<close>)
  have c1: "set (rows ?res) \<subseteq> set (rows ?df)"
    using first_occurrences_subset[of "[]" ?M] setM rres by auto
  have c2: "snd ` set (rows ?res)
              = snd ` set (filter (\<lambda>r. py_in (snd r ! i) test_gene_list) (rows ?df))"
    using first_occurrences_values[of "[]" ?M] setM rres by simp
  have c3: "distinct (map snd (rows ?res))"
    using first_occurrences_distinct[of "[]" ?M] rres by simp
  have c4: "if \<exists>r \<in> set (rows ?df). py_in (snd r ! i) test_gene_list
          then columns ?res = columns ?df else ?res = pd_DataFrame"
  proof (cases "\<exists>r \<in> set (rows ?df). py_in (snd r ! i) test_gene_list")
    case True
    then have "?M \<noteq> []" using setM by auto
    then have "s2 ! gp \<noteq> pd_DataFrame" using rw' by (auto simp: pd_DataFrame_def)
    with cl d1 have "columns (s2 ! gp) = columns ?df" by simp
    then have "columns ?res = columns ?df" by (simp add: drop_duplicates_def)
    with True show ?thesis by simp
  next
    case False
    then have "filter (\<lambda>g. py_in g test_gene_list) ?vals = []"
      by (auto simp: filter_empty_conv)
    with nop have "gp = length s" "s2 = ?s1" by auto
    then have "?res = pd_DataFrame" by (simp add: drop_duplicates_def pd_DataFrame_def)
    with False show ?thesis by simp
  qed
  from run b res c1 c2 c3 c4 show ?thesis by (auto simp del: split_paired_Ex)
qed

theorem get_gene_data_result_witness:
  "\<exists>gp s'. get_gene_data 0 ''gene_name'' [''a'', ''c'']
        [\<lparr>columns = [''gene_name'', ''GO_ID''], dtypes = [Object, Object],
          rows = [(0, [Str ''a'', Str ''G1'']), (1, [Str ''b'', Str ''G1'']),
                  (2, [Str ''a'', Str ''G2'']), (3, [Str ''a'', Str ''G1'']),
                  (4, [Str ''c'', Str ''G3''])]\<rparr>] = (Inr gp, s')
      \<and> snd ` set (rows (s' ! gp))
          = {[Str ''a'', Str ''G1''], [Str ''a'', Str ''G2''], [Str ''c'', Str ''G3'']}
      \<and> distinct (map snd (rows (s' ! gp)))
      \<and> columns (s' ! gp) = [''gene_name'', ''GO_ID'']"
  using get_gene_data_result
          [of 0 "[\<lparr>columns = [''gene_name'', ''GO_ID''], dtypes = [Object, Object],
                   rows = [(0, [Str ''a'', Str ''G1'']), (1, [Str ''b'', Str ''G1'']),
                           (2, [Str ''a'', Str ''G2'']), (3, [Str ''a'', Str ''G1'']),
                           (4, [Str ''c'', Str ''G3''])]\<rparr>]"
              "''gene_name''" 0 "[''a'', ''c'']"]
  by (auto simp: wf_df_def)

subsection \<open>GO enrichment\<close>

lemma mask_select_map3:
  "mask_select (map f xs) (map P (map g xs)) = map f (filter (\<lambda>x. P (g x)) xs)"
  unfolding mask_select_def by (induction xs) auto

lemma set_uniques: "set (uniques xs) = set xs"
  by (simp add: uniques_def)

lemma distinct_uniques: "distinct (uniques xs)"
  by (simp add: uniques_def)

lemma count_list_filter: "P x \<Longrightarrow> count_list (filter P xs) x = count_list xs x"
  by (induction xs) auto

lemma map_fst_value_counts: "map fst (value_counts vals) = uniques (filter notnull vals)"
  by (simp add: value_counts_def Let_def comp_def)

lemma value_counts_snd:
  "p \<in> set (value_counts vals) \<Longrightarrow> notnull (fst p) \<and> fst p \<in> set vals \<and> snd p = count_list vals (fst p)"
  by (auto simp: value_counts_def Let_def set_uniques count_list_filter)

lemma value_counts_mem:
  "notnull g \<Longrightarrow> g \<in> set vals \<Longrightarrow> (g, count_list vals g) \<in> set (value_counts vals)"
  by (auto simp: value_counts_def Let_def set_uniques count_list_filter image_iff)

lemma distinct_value_counts_sorted: "distinct (map fst (value_counts_sorted vals))"
proof -
  have "distinct (map fst (value_counts vals))"
    by (simp add: map_fst_value_counts distinct_uniques)
  then show ?thesis
    by (simp add: value_counts_sorted_def distinct_map)
qed

lemma set_value_counts_sorted: "set (value_counts_sorted vals) = set (value_counts vals)"
  by (simp add: value_counts_sorted_def)

lemma hi_GO_ids_set:
  "set (map fst (filter (\<lambda>p. thr < snd p) (value_counts_sorted vals)))
     = set (filter (\<lambda>g. notnull g \<and> thr < count_list vals g) vals)"
proof (intro set_eqI iffI)
  fix g assume "g \<in> set (map fst (filter (\<lambda>p. thr < snd p) (value_counts_sorted vals)))"
  then obtain p where "p \<in> set (value_counts vals)" "thr < snd p" "g = fst p"
    by (auto simp: set_value_counts_sorted)
  with value_counts_snd[of p vals]
  show "g \<in> set (filter (\<lambda>g. notnull g \<and> thr < count_list vals g) vals)" by auto
next
  fix g assume "g \<in> set (filter (\<lambda>g. notnull g \<and> thr < count_list vals g) vals)"
  then have "notnull g" "g \<in> set vals" "thr < count_list vals g" by auto
  with value_counts_mem[of g vals]
  have "(g, count_list vals g) \<in> set (filter (\<lambda>p. thr < snd p) (value_counts_sorted vals))"
    by (simp add: set_value_counts_sorted)
  then show "g \<in> set (map fst (filter (\<lambda>p. thr < snd p) (value_counts_sorted vals)))"
    by (metis fst_conv image_eqI set_map)
qed

lemma get_hi_GOs_run:
  assumes "index_of ''GO_ID'' (columns df) = Some i" "length (rows df) > 1"
  shows "get_hi_GOs df =
     (let H = map fst (filter (\<lambda>p. length (rows df) div 10 < snd p)
                  (value_counts_sorted (map (\<lambda>r. snd r ! i) (rows df))))
      in Inr (if H = [] then ([''No enriched functions found.''], None) else ([], Some H)))"
  using assms
  by (simp add: get_hi_GOs_def getattr_values_def Let_def mask_select_map3 del: map_map)

text \<open>
  Claim C2: for a gene set with more than one row (and a \<^verbatim>\<open>GO_ID\<close> column, at position
  \<open>i\<close>), the GO IDs that \<^verbatim>\<open>get_hi_GOs\<close> returns are exactly the GO IDs (non-null values of
  that column) that occur more than \<^verbatim>\<open>int(0.10 * rows)\<close> times, each once; when there is
  none, nothing is handed on: the function prints and returns None.
\<close>

theorem get_hi_GOs_above_threshold:
  assumes "index_of ''GO_ID'' (columns GO_gene_set) = Some i" "length (rows GO_gene_set) > 1"
  shows "\<exists>H. distinct H
     \<and> set H = set (filter (\<lambda>g. notnull g
                  \<and> count_list (map (\<lambda>r. snd r ! i) (rows GO_gene_set)) g
                      > length (rows GO_gene_set) div 10)
                (map (\<lambda>r. snd r ! i) (rows GO_gene_set)))
     \<and> get_hi_GOs GO_gene_set
         = Inr (if H = [] then ([''No enriched functions found.''], None) else ([], Some H))"
proof -
  let ?vals = "map (\<lambda>r. snd r ! i) (rows GO_gene_set)"
  let ?thr = "length (rows GO_gene_set) div 10"
  let ?H = "map fst (filter (\<lambda>p. ?thr < snd p) (value_counts_sorted ?vals))"
  have "distinct ?H"
    by (rule distinct_map_filter) (rule distinct_value_counts_sorted)
  moreover have "set ?H = set (filter (\<lambda>g. notnull g \<and> ?thr < count_list ?vals g) ?vals)"
    by (rule hi_GO_ids_set)
  moreover have "get_hi_GOs GO_gene_set
         = Inr (if ?H = [] then ([''No enriched functions found.''], None) else ([], Some ?H))"
    using get_hi_GOs_run[OF assms] by (simp add: Let_def)
  ultimately show ?thesis by blast
qed

theorem get_hi_GOs_above_threshold_witness:
  "\<exists>H. distinct H \<and> set H = {Str ''G1'', Str ''G2''}
     \<and> get_hi_GOs \<lparr>columns = [''gene_name'', ''GO_ID''], dtypes = [Object, Object],
          rows = [(0, [Str ''a'', Str ''G1'']), (1, [Str ''a'', Str ''G2'']),
                  (2, [Str ''b'', Str ''G1'']), (3, [Str ''b'', Str ''G3'']),
                  (4, [Str ''c'', Str ''G1'']), (5, [Str ''c'', Str ''G2'']),
                  (6, [Str ''d'', Str ''G4'']), (7, [Str ''d'', Str ''G5'']),
                  (8, [Str ''e'', Str ''G6'']), (9, [Str ''e'', Num NaN])]\<rparr>
         = Inr (if H = [] then ([''No enriched functions found.''], None) else ([], Some H))"
proof -
  let ?D = "\<lparr>columns = [''gene_name'', ''GO_ID''], dtypes = [Object, Object],
          rows = [(0, [Str ''a'', Str ''G1'']), (1, [Str ''a'', Str ''G2'']),
                  (2, [Str ''b'', Str ''G1'']), (3, [Str ''b'', Str ''G3'']),
                  (4, [Str ''c'', Str ''G1'']), (5, [Str ''c'', Str ''G2'']),
                  (6, [Str ''d'', Str ''G4'']), (7, [Str ''d'', Str ''G5'']),
                  (8, [Str ''e'', Str ''G6'']), (9, [Str ''e'', Num NaN])]\<rparr>"
  have "index_of ''GO_ID'' (columns ?D) = Some 1" "length (rows ?D) > 1" by simp_all
  from get_hi_GOs_above_threshold[OF this] obtain H where
    "distinct H" "set H = {Str ''G1'', Str ''G2'', Str ''G1'', Str ''G2''}"
    "get_hi_GOs ?D
       = Inr (if H = [] then ([''No enriched functions found.''], None) else ([], Some H))"
    by (auto simp: notnull_def)
  moreover have "{Str ''G1'', Str ''G2'', Str ''G1'', Str ''G2''} = {Str ''G1'', Str ''G2''}"
    by auto
  ultimately show ?thesis by (intro exI[of _ H]) simp
qed

text \<open>
  Claim C4: \<^verbatim>\<open>get_hi_GOs\<close> prints \<^verbatim>\<open>No enriched functions found.\<close> and returns None, raising
  nothing, when the gene set has at most one row and when no GO ID occurs more often than
  the threshold; \<^verbatim>\<open>get_hyper_test_p_value\<close> prints \<^verbatim>\<open>Enrichment test did not run.\<close> and
  returns None when its list of GO IDs is None or empty.
\<close>

theorem no_enrichment_message:
  "(length (rows GO_gene_set) \<le> 1 \<longrightarrow>
      get_hi_GOs GO_gene_set = Inr ([''No enriched functions found.''], None))
   \<and> (length (rows GO_gene_set) > 1 \<and> index_of ''GO_ID'' (columns GO_gene_set) = Some i
        \<and> list_all (\<lambda>g. notnull g \<longrightarrow>
              count_list (map (\<lambda>r. snd r ! i) (rows GO_gene_set)) g
                \<le> length (rows GO_gene_set) div 10)
            (map (\<lambda>r. snd r ! i) (rows GO_gene_set)) \<longrightarrow>
      get_hi_GOs GO_gene_set = Inr ([''No enriched functions found.''], None))
   \<and> get_hyper_test_p_value uninit gene_ontology_data GO_gene_set None
        = Inr ([''Enrichment test did not run.''], None)
   \<and> get_hyper_test_p_value uninit gene_ontology_data GO_gene_set (Some [])
        = Inr ([''Enrichment test did not run.''], None)"
proof (intro conjI impI)
  assume "length (rows GO_gene_set) \<le> 1"
  then show "get_hi_GOs GO_gene_set = Inr ([''No enriched functions found.''], None)"
    by (simp add: get_hi_GOs_def)
next
  let ?vals = "map (\<lambda>r. snd r ! i) (rows GO_gene_set)"
  let ?thr = "length (rows GO_gene_set) div 10"
  assume a: "length (rows GO_gene_set) > 1 \<and> index_of ''GO_ID'' (columns GO_gene_set) = Some i
        \<and> list_all (\<lambda>g. notnull g \<longrightarrow> count_list ?vals g \<le> ?thr) ?vals"
  have "filter (\<lambda>p. ?thr < snd p) (value_counts_sorted ?vals) = []"
  proof -
    have "\<And>p. p \<in> set (value_counts_sorted ?vals) \<Longrightarrow> \<not> ?thr < snd p"
    proof -
      fix p assume "p \<in> set (value_counts_sorted ?vals)"
      then have "p \<in> set (value_counts ?vals)" by (simp add: set_value_counts_sorted)
      from value_counts_snd[OF this] a show "\<not> ?thr < snd p"
        by (auto simp: list_all_iff)
    qed
    then show ?thesis by (auto simp: filter_empty_conv)
  qed
  with get_hi_GOs_run[of GO_gene_set i] a
  show "get_hi_GOs GO_gene_set = Inr ([''No enriched functions found.''], None)"
    by (simp add: Let_def)
qed (simp_all add: get_hyper_test_p_value_def)

theorem no_enrichment_message_witness:
  "get_hi_GOs \<lparr>columns = [''gene_name'', ''GO_ID''], dtypes = [Object, Object],
          rows = [(0, [Str ''a'', Str ''G1''])]\<rparr>
     = Inr ([''No enriched functions found.''], None)
   \<and> get_hi_GOs \<lparr>columns = [''gene_name'', ''GO_ID''], dtypes = [Object, Object],
          rows = [(0, [Str ''a'', Str ''G0'']), (1, [Str ''a'', Str ''G1'']),
                  (2, [Str ''b'', Str ''G2'']), (3, [Str ''b'', Str ''G3'']),
                  (4, [Str ''c'', Str ''G4'']), (5, [Str ''c'', Str ''G5'']),
                  (6, [Str ''d'', Str ''G6'']), (7, [Str ''d'', Str ''G7'']),
                  (8, [Str ''e'', Str ''G8'']), (9, [Str ''e'', Str ''G9''])]\<rparr>
     = Inr ([''No enriched functions found.''], None)
   \<and> get_hyper_test_p_value (\<lambda>i j. Fin 0) pd_DataFrame
        \<lparr>columns = [''gene_name'', ''GO_ID''], dtypes = [Object, Object],
          rows = [(0, [Str ''a'', Str ''G1''])]\<rparr> None
     = Inr ([''Enrichment test did not run.''], None)
   \<and> get_hyper_test_p_value (\<lambda>i j. Fin 0) pd_DataFrame
        \<lparr>columns = [''gene_name'', ''GO_ID''], dtypes = [Object, Object],
          rows = [(0, [Str ''a'', Str ''G1''])]\<rparr> (Some [])
     = Inr ([''Enrichment test did not run.''], None)"
  using no_enrichment_message
    [of "\<lparr>columns = [''gene_name'', ''GO_ID''], dtypes = [Object, Object],
          rows = [(0, [Str ''a'', Str ''G1''])]\<rparr>" 1 "\<lambda>i j. Fin 0" pd_DataFrame]
    no_enrichment_message
    [of "\<lparr>columns = [''gene_name'', ''GO_ID''], dtypes = [Object, Object],
          rows = [(0, [Str ''a'', Str ''G0'']), (1, [Str ''a'', Str ''G1'']),
                  (2, [Str ''b'', Str ''G2'']), (3, [Str ''b'', Str ''G3'']),
                  (4, [Str ''c'', Str ''G4'']), (5, [Str ''c'', Str ''G5'']),
                  (6, [Str ''d'', Str ''G6'']), (7, [Str ''d'', Str ''G7'']),
                  (8, [Str ''e'', Str ''G8'']), (9, [Str ''e'', Str ''G9''])]\<rparr>" 1
        "\<lambda>i j. Fin 0" pd_DataFrame]
  by (simp add: notnull_def)

lemma count_of_present:
  assumes "index_of ''GO_ID'' (columns df) = Some j" "notnull g"
    "g \<in> set (map (\<lambda>r. snd r ! j) (rows df))"
  shows "count_of df g = Inr (count_list (map (\<lambda>r. snd r ! j) (rows df)) g)"
proof -
  let ?vals = "map (\<lambda>r. snd r ! j) (rows df)"
  have "g \<in> set (uniques (filter notnull ?vals))"
    using assms(2,3) by (simp add: set_uniques)
  then have "map_of (value_counts ?vals) g = Some (count_list (filter notnull ?vals) g)"
    by (simp add: value_counts_def Let_def map_of_map_restrict)
  with assms(1,2) show ?thesis
    by (simp add: count_of_def getitem_values_def count_list_filter)
qed

lemma p_val_loop_success:
  assumes "index_of ''GO_ID'' (columns GO_gene_set) = Some j"
    "index_of ''GO_ID'' (columns gene_ontology_data) = Some j'"
    "list_all (\<lambda>g. notnull g \<and> g \<in> set (map (\<lambda>r. snd r ! j) (rows GO_gene_set))
                \<and> g \<in> set (map (\<lambda>r. snd r ! j') (rows gene_ontology_data))) ids"
  shows "p_val_loop uninit gene_ontology_data GO_gene_set n M i ids
     = Inr (computed_p_vals uninit (map (\<lambda>r. snd r ! j) (rows GO_gene_set)) n i ids)"
  using assms(3)
proof (induction ids arbitrary: i)
  case Nil
  then show ?case by (simp add: computed_p_vals_def)
next
  case (Cons g ids)
  from Cons.prems have g: "notnull g" "g \<in> set (map (\<lambda>r. snd r ! j) (rows GO_gene_set))"
    "g \<in> set (map (\<lambda>r. snd r ! j') (rows gene_ontology_data))" and rest:
    "list_all (\<lambda>g. notnull g \<and> g \<in> set (map (\<lambda>r. snd r ! j) (rows GO_gene_set))
                \<and> g \<in> set (map (\<lambda>r. snd r ! j') (rows gene_ontology_data))) ids"
    by auto
  have c1: "count_of GO_gene_set g = Inr (count_list (map (\<lambda>r. snd r ! j) (rows GO_gene_set)) g)"
    by (rule count_of_present[OF assms(1) g(1,2)])
  have c2: "count_of gene_ontology_data g
              = Inr (count_list (map (\<lambda>r. snd r ! j') (rows gene_ontology_data)) g)"
    by (rule count_of_present[OF assms(2) g(1,3)])
  have z: "zip [i..<Suc (i + length ids)] (g # ids) = (i, g) # zip [Suc i..<Suc (i + length ids)] ids"
    by (simp add: upt_conv_Cons del: upt_Suc)
  show ?case
    using Cons.IH[OF rest, of "Suc i"] c1 c2
    by (simp add: Let_def computed_p_vals_def z del: upt_Suc)
qed

lemma zip_mask_select:
  "length xs = length ys \<Longrightarrow>
     zip (mask_select xs (map P ys)) (mask_select ys (map P ys)) = filter (\<lambda>(x, y). P y) (zip xs ys)"
  unfolding mask_select_def by (induction xs ys rule: list_induct2) auto

lemma length_mask_select:
  "length xs = length ys \<Longrightarrow> length (mask_select xs (map P ys)) = length (mask_select ys (map P ys))"
  unfolding mask_select_def by (induction xs ys rule: list_induct2) auto

lemma map_snd_zip_upt: "map (\<lambda>l. F (snd l)) (zip [0..<length xs] xs) = map F xs"
proof -
  have a: "\<And>zs. map (\<lambda>l. F (snd l)) zs = map F (map snd zs)"
    by (simp add: comp_def)
  have b: "map snd (zip [0..<length xs] xs) = xs"
    by (rule map_snd_zip) simp
  show ?thesis by (simp only: a b)
qed

lemma mset_groups:
  "distinct ks \<Longrightarrow>
     mset (concat (map (\<lambda>k. filter (\<lambda>l. f l = k) L) ks)) = filter_mset (\<lambda>l. f l \<in> set ks) (mset L)"
proof (induction ks)
  case Nil
  then show ?case by simp
next
  case (Cons k ks)
  then have "k \<notin> set ks" "distinct ks" by auto
  with Cons.IH show ?case
    by (auto intro!: multiset_eqI)
qed

lemma mset_grouped_by_key:
  "mset (concat (map (\<lambda>k. filter (\<lambda>l. f l = k) L) (uniques (map f L)))) = mset L"
proof -
  have "mset (concat (map (\<lambda>k. filter (\<lambda>l. f l = k) L) (uniques (map f L))))
          = filter_mset (\<lambda>l. f l \<in> set (uniques (map f L))) (mset L)"
    by (rule mset_groups) (rule distinct_uniques)
  also have "\<dots> = mset L"
    by (auto simp: set_uniques intro!: multiset_eqI)
  finally show ?thesis .
qed

lemma filter_key_singleton:
  "distinct (map f L) \<Longrightarrow> x \<in> set L \<Longrightarrow> filter (\<lambda>l. f l = f x) L = [x]"
proof (induction L)
  case Nil
  then show ?case by simp
next
  case (Cons a L)
  show ?case
  proof (cases "x = a")
    case True
    with Cons.prems have "filter (\<lambda>l. f l = f a) L = []"
      by (auto simp: filter_empty_conv image_iff)
    with True show ?thesis by simp
  next
    case False
    with Cons.prems have "x \<in> set L" "f a \<noteq> f x" "distinct (map f L)" by auto
    with Cons.IH show ?thesis by simp
  qed
qed

lemma grouped_by_distinct_key:
  assumes "distinct (map f L)"
  shows "concat (map (\<lambda>k. filter (\<lambda>l. f l = k) L) (uniques (map f L))) = L"
proof -
  have u: "uniques (map f L) = map f L"
    using assms by (simp add: uniques_def distinct_remdups_id)
  have "concat (map (\<lambda>k. filter (\<lambda>l. f l = k) L) (map f L))
          = concat (map (\<lambda>x. [x]) L)"
    using filter_key_singleton[OF assms]
    by (simp add: comp_def cong: map_cong)
  also have "\<dots> = L" by (induction L) auto
  finally show ?thesis using u by simp
qed

lemma mset_concat_map_cong:
  assumes "mset xs = mset ys"
  shows "mset (concat (map F xs)) = mset (concat (map F ys))"
proof -
  have "\<And>zs. mset (concat (map F zs)) = sum_mset (image_mset (\<lambda>z. mset (F z)) (mset zs))"
    by (induct_tac zs) auto
  with assms show ?thesis by simp
qed

lemma merge_body_grouped:
  "merge_body i j L R =
     concat (map (\<lambda>l. map (\<lambda>r. snd l @ drop_nth j (snd r)) (filter (\<lambda>r. snd r ! j = snd l ! i) R))
       (concat (map (\<lambda>k. filter (\<lambda>l. snd l ! i = k) L) (uniques (map (\<lambda>l. snd l ! i) L)))))"
proof -
  let ?F = "\<lambda>l. map (\<lambda>r. snd l @ drop_nth j (snd r)) (filter (\<lambda>r. snd r ! j = snd l ! i) R)"
  have inner: "\<And>k. map (\<lambda>l. map (\<lambda>r. snd l @ drop_nth j (snd r)) (filter (\<lambda>r. snd r ! j = k) R))
                    (filter (\<lambda>l. snd l ! i = k) L)
                 = map ?F (filter (\<lambda>l. snd l ! i = k) L)"
    by (rule map_cong) auto
  have "\<And>ks. concat (map (\<lambda>k. concat (map ?F (filter (\<lambda>l. snd l ! i = k) L))) ks)
          = concat (map ?F (concat (map (\<lambda>k. filter (\<lambda>l. snd l ! i = k) L) ks)))"
    by (induct_tac ks) auto
  then show ?thesis by (simp add: merge_body_def inner)
qed

lemma merge_body_mset:
  "mset (merge_body i j L R) =
     mset (concat (map (\<lambda>l. map (\<lambda>r. snd l @ drop_nth j (snd r))
                            (filter (\<lambda>r. snd r ! j = snd l ! i) R)) L))"
  unfolding merge_body_grouped
  by (rule mset_concat_map_cong) (rule mset_grouped_by_key)

lemma merge_body_distinct:
  "distinct (map (\<lambda>l. snd l ! i) L) \<Longrightarrow>
     merge_body i j L R =
       concat (map (\<lambda>l. map (\<lambda>r. snd l @ drop_nth j (snd r))
                            (filter (\<lambda>r. snd r ! j = snd l ! i) R)) L)"
  unfolding merge_body_grouped by (simp add: grouped_by_distinct_key)

lemma distinct_fst_filter_zip:
  "distinct xs \<Longrightarrow> distinct (map fst (filter P (zip xs ys)))"
proof -
  assume "distinct xs"
  then have "distinct (map fst (zip xs ys))" by (simp add: map_fst_zip_take)
  then show ?thesis by (rule distinct_map_filter)
qed

lemma GO_summary_keys:
  "length gos = length pvals \<Longrightarrow> map (\<lambda>l. snd l ! 0) (rows (GO_summary gos pvals)) = gos"
proof -
  assume len: "length gos = length pvals"
  let ?vs = "map (\<lambda>(g, p). [g, Num p]) (zip gos pvals)"
  have "map (\<lambda>l. snd l ! 0) (zip [0..<length ?vs] ?vs) = map (\<lambda>v. v ! 0) ?vs"
    by (rule map_snd_zip_upt)
  also have "\<dots> = map fst (zip gos pvals)" by (simp add: comp_def split_def)
  also have "\<dots> = gos" using len by simp
  finally show ?thesis using len by (simp add: GO_summary_def)
qed

lemma GO_summary_left_order:
  assumes "length gos = length pvals"
  shows "concat (map (\<lambda>l. map (\<lambda>r. snd l @ drop_nth j (snd r))
                (filter (\<lambda>r. snd r ! j = snd l ! 0) (rows right)))
          (rows (GO_summary gos pvals))) = spec_inner_merge (zip gos pvals) right j"
proof -
  let ?F = "\<lambda>v. map (\<lambda>r. v @ drop_nth j (snd r)) (filter (\<lambda>r. snd r ! j = v ! 0) (rows right))"
  have "map (\<lambda>l. ?F (snd l)) (rows (GO_summary gos pvals))
          = map ?F (map (\<lambda>(g, p). [g, Num p]) (zip gos pvals))"
    using map_snd_zip_upt[of ?F "map (\<lambda>(g, p). [g, Num p]) (zip gos pvals)"] assms
    by (simp add: GO_summary_def)
  also have "\<dots> = map (\<lambda>(g, p). map (\<lambda>r. [g, Num p] @ drop_nth j (snd r))
                            (filter (\<lambda>r. snd r ! j = g) (rows right))) (zip gos pvals)"
    by (simp add: comp_def split_def)
  finally show ?thesis by (simp add: spec_inner_merge_def)
qed

lemma pd_merge_GO_summary:
  assumes "index_of ''GO_ID'' (columns right) = Some j" "length gos = length pvals"
  shows "\<exists>summary. pd_merge (GO_summary gos pvals) right ''GO_ID'' = Inr summary
     \<and> mset (map snd (rows summary)) = mset (spec_inner_merge (zip gos pvals) right j)
     \<and> (distinct gos \<longrightarrow> map snd (rows summary) = spec_inner_merge (zip gos pvals) right j)
     \<and> columns summary =
         (if zip gos pvals = []
          then (if ''p_val'' \<in> set (columns right) then ''p_val_x'' else ''p_val'')
               # map (\<lambda>c. if c = ''p_val'' then c @ ''_y'' else c) (columns right)
          else map (\<lambda>c. if c \<in> set (drop_nth j (columns right)) then c @ ''_x'' else c)
                 [''GO_ID'', ''p_val'']
               @ map (\<lambda>c. if c = ''GO_ID'' \<or> c = ''p_val'' then c @ ''_y'' else c)
                   (drop_nth j (columns right)))"
proof -
  let ?L = "rows (GO_summary gos pvals)"
  let ?body = "merge_body 0 j ?L (rows right)"
  let ?summary = "\<lparr>columns =
         (if zip gos pvals = []
          then (if ''p_val'' \<in> set (columns right) then ''p_val_x'' else ''p_val'')
               # map (\<lambda>c. if c = ''p_val'' then c @ ''_y'' else c) (columns right)
          else map (\<lambda>c. if c \<in> set (drop_nth j (columns right)) then c @ ''_x'' else c)
                 [''GO_ID'', ''p_val'']
               @ map (\<lambda>c. if c = ''GO_ID'' \<or> c = ''p_val'' then c @ ''_y'' else c)
                   (drop_nth j (columns right))),
       dtypes = (if ?L = [] then drop_nth 0 (dtypes (GO_summary gos pvals)) @ dtypes right
                 else dtypes (GO_summary gos pvals) @ drop_nth j (dtypes right)),
       rows = zip [0..<length ?body] ?body\<rparr>"
  have e: "(?L = []) = (zip gos pvals = [])"
    using assms(2) by (auto simp: GO_summary_def)
  have run: "pd_merge (GO_summary gos pvals) right ''GO_ID'' = Inr ?summary"
    using assms(1) e
    by (auto simp: pd_merge_def Let_def GO_summary_def drop_nth_def)
  have rs: "map snd (rows ?summary) = ?body" by simp
  have m: "mset ?body = mset (spec_inner_merge (zip gos pvals) right j)"
    using merge_body_mset[of 0 j ?L "rows right"] GO_summary_left_order[OF assms(2), of j right]
    by simp
  have d: "distinct gos \<longrightarrow> ?body = spec_inner_merge (zip gos pvals) right j"
    using merge_body_distinct[of 0 ?L j "rows right"] GO_summary_keys[OF assms(2)]
      GO_summary_left_order[OF assms(2), of j right]
    by simp
  show ?thesis
  proof (intro exI[of _ ?summary] conjI)
    show "pd_merge (GO_summary gos pvals) right ''GO_ID'' = Inr ?summary" by (rule run)
    show "mset (map snd (rows ?summary)) = mset (spec_inner_merge (zip gos pvals) right j)"
      using m by simp
    show "distinct gos \<longrightarrow> map snd (rows ?summary) = spec_inner_merge (zip gos pvals) right j"
      using d by simp
  qed simp
qed

text \<open>
  Claim C3: when the test runs (a non-empty list of GO IDs, each found in the
  \<^verbatim>\<open>GO_ID\<close> column of both frames), the summary it returns is the inner merge on
  \<^verbatim>\<open>GO_ID\<close> of the gene set with the GO IDs whose computed p-value is below the fixed
  level 0.05, each with that p-value: its rows are, up to their order, the pairs of such a
  GO ID and a row of the gene set that carries it, and in the order of the GO IDs when
  none is listed twice. Its columns are \<^verbatim>\<open>GO_ID\<close> and \<^verbatim>\<open>p_val\<close>, then the other columns
  of the gene set; with no significant GO ID the \<^verbatim>\<open>GO_ID\<close> column stands where the gene
  set has it. The level does not depend on the number of GO IDs tested.
\<close>

theorem significance_cut_and_merge:
  assumes "ids \<noteq> []"
    "index_of ''GO_ID'' (columns GO_gene_set) = Some j"
    "index_of ''GO_ID'' (columns gene_ontology_data) = Some j'"
    "list_all (\<lambda>g. notnull g \<and> g \<in> set (map (\<lambda>r. snd r ! j) (rows GO_gene_set))
                \<and> g \<in> set (map (\<lambda>r. snd r ! j') (rows gene_ontology_data))) ids"
  shows "\<exists>p_vals summary.
      p_val_loop uninit gene_ontology_data GO_gene_set
          (length (rows GO_gene_set)) (length (rows gene_ontology_data)) 0 ids = Inr p_vals
    \<and> length p_vals = length ids
    \<and> get_hyper_test_p_value uninit gene_ontology_data GO_gene_set (Some ids)
        = Inr ([''Enrichment test ran succesfully!''], Some summary)
    \<and> mset (map snd (rows summary))
        = mset (spec_inner_merge (spec_significant ids p_vals) GO_gene_set j)
    \<and> (distinct ids \<longrightarrow>
         map snd (rows summary) = spec_inner_merge (spec_significant ids p_vals) GO_gene_set j)
    \<and> columns summary =
         (if spec_significant ids p_vals = []
          then (if ''p_val'' \<in> set (columns GO_gene_set) then ''p_val_x'' else ''p_val'')
               # map (\<lambda>c. if c = ''p_val'' then c @ ''_y'' else c) (columns GO_gene_set)
          else map (\<lambda>c. if c \<in> set (drop_nth j (columns GO_gene_set)) then c @ ''_x'' else c)
                 [''GO_ID'', ''p_val'']
               @ map (\<lambda>c. if c = ''GO_ID'' \<or> c = ''p_val'' then c @ ''_y'' else c)
                   (drop_nth j (columns GO_gene_set)))"
proof -
  let ?n = "length (rows GO_gene_set)"
  let ?M = "length (rows gene_ontology_data)"
  let ?ps = "computed_p_vals uninit (map (\<lambda>r. snd r ! j) (rows GO_gene_set)) ?n 0 ids"
  let ?mask = "map (\<lambda>p. flt p (Fin 0.05)) ?ps"
  let ?gos = "mask_select ids ?mask"
  let ?pvs = "mask_select ?ps ?mask"
  have run: "p_val_loop uninit gene_ontology_data GO_gene_set ?n ?M 0 ids = Inr ?ps"
    by (rule p_val_loop_success[OF assms(2,3,4)])
  have len: "length ids = length ?ps" by (simp add: computed_p_vals_def)
  have z: "zip ?gos ?pvs = spec_significant ids ?ps"
    using zip_mask_select[OF len] by (simp add: spec_significant_def)
  have l2: "length ?gos = length ?pvs"
    by (rule length_mask_select[OF len])
  have dg: "distinct ids \<Longrightarrow> distinct ?gos"
  proof -
    assume "distinct ids"
    then have "distinct (map fst (spec_significant ids ?ps))"
      unfolding spec_significant_def by (rule distinct_fst_filter_zip)
    then show ?thesis using z l2 by (metis map_fst_zip)
  qed
  from pd_merge_GO_summary[OF assms(2) l2] obtain summary where
    m: "pd_merge (GO_summary ?gos ?pvs) GO_gene_set ''GO_ID'' = Inr summary"
    and b: "mset (map snd (rows summary)) = mset (spec_inner_merge (zip ?gos ?pvs) GO_gene_set j)"
    and o: "distinct ?gos \<longrightarrow> map snd (rows summary) = spec_inner_merge (zip ?gos ?pvs) GO_gene_set j"
    and c: "columns summary =
         (if zip ?gos ?pvs = []
          then (if ''p_val'' \<in> set (columns GO_gene_set) then ''p_val_x'' else ''p_val'')
               # map (\<lambda>c. if c = ''p_val'' then c @ ''_y'' else c) (columns GO_gene_set)
          else map (\<lambda>c. if c \<in> set (drop_nth j (columns GO_gene_set)) then c @ ''_x'' else c)
                 [''GO_ID'', ''p_val'']
               @ map (\<lambda>c. if c = ''GO_ID'' \<or> c = ''p_val'' then c @ ''_y'' else c)
                   (drop_nth j (columns GO_gene_set)))"
    by blast
  have g: "get_hyper_test_p_value uninit gene_ontology_data GO_gene_set (Some ids)
        = Inr ([''Enrichment test ran succesfully!''], Some summary)"
    using assms(1) run m by (simp add: get_hyper_test_p_value_def Let_def)
  show ?thesis
    using run len g b o c dg unfolding z
    by (intro exI[of _ ?ps] exI[of _ summary]) auto
qed

theorem significance_cut_and_merge_witness:
  "\<exists>summary.
      get_hyper_test_p_value (\<lambda>i j. if i = 1 then Fin 1 else Fin 0)
        \<lparr>columns = [''gene_name'', ''GO_ID''], dtypes = [Object, Object],
          rows = [(0, [Str ''a'', Str ''G1'']), (1, [Str ''b'', Str ''G1'']),
                  (2, [Str ''b'', Str ''G2'']), (3, [Str ''c'', Str ''G2'']),
                  (4, [Str ''d'', Str ''G3''])]\<rparr>
        \<lparr>columns = [''gene_name'', ''GO_ID''], dtypes = [Object, Object],
          rows = [(0, [Str ''a'', Str ''G1'']), (1, [Str ''b'', Str ''G1'']),
                  (2, [Str ''b'', Str ''G2'']), (4, [Str ''d'', Str ''G3''])]\<rparr>
        (Some [Str ''G3'', Str ''G2'', Str ''G1''])
        = Inr ([''Enrichment test ran succesfully!''], Some summary)
    \<and> map snd (rows summary)
        = [[Str ''G3'', Num (Fin 0), Str ''d''],
           [Str ''G1'', Num (Fin 0), Str ''a''], [Str ''G1'', Num (Fin 0), Str ''b'']]
    \<and> columns summary = [''GO_ID'', ''p_val'', ''gene_name'']"
  using significance_cut_and_merge
    [of "[Str ''G3'', Str ''G2'', Str ''G1'']"
        "\<lparr>columns = [''gene_name'', ''GO_ID''], dtypes = [Object, Object],
          rows = [(0, [Str ''a'', Str ''G1'']), (1, [Str ''b'', Str ''G1'']),
                  (2, [Str ''b'', Str ''G2'']), (4, [Str ''d'', Str ''G3''])]\<rparr>" 1
        "\<lparr>columns = [''gene_name'', ''GO_ID''], dtypes = [Object, Object],
          rows = [(0, [Str ''a'', Str ''G1'']), (1, [Str ''b'', Str ''G1'']),
                  (2, [Str ''b'', Str ''G2'']), (3, [Str ''c'', Str ''G2'']),
                  (4, [Str ''d'', Str ''G3''])]\<rparr>" 1
        "\<lambda>i j. if i = 1 then Fin 1 else Fin 0"]
  by (auto simp: notnull_def count_of_def getitem_values_def value_counts_def uniques_def
        np_sum_def np_empty_def spec_inner_merge_def spec_significant_def drop_nth_def Let_def)

text \<open>
  Claim C1 says that the p-value of a GO ID is the upper tail of the hypergeometric
  distribution. The function computes the probabilities (\<^verbatim>\<open>pmfs\<close>) and then sums another
  array, \<^verbatim>\<open>hypergeom_pmfs\<close>, the buffer that \<^verbatim>\<open>np.empty\<close> handed out and nothing wrote to.
  For an annotation set with the GO IDs G1, G1, G2, G2, G3 and the gene set of its first
  three rows, the upper tails of G1 and G2 are 3/10 and 9/10; the function returns 0 and
  0 when the buffers hold zeros, 2 and 3 when they hold ones.
\<close>

theorem p_val_is_sum_of_uninitialised_buffer:
  "p_val_loop (\<lambda>i j. Fin 0)
      \<lparr>columns = [''gene_name'', ''GO_ID''], dtypes = [Object, Object],
        rows = [(0, [Str ''a'', Str ''G1'']), (1, [Str ''b'', Str ''G1'']),
                (2, [Str ''b'', Str ''G2'']), (3, [Str ''c'', Str ''G2'']),
                (4, [Str ''d'', Str ''G3''])]\<rparr>
      \<lparr>columns = [''gene_name'', ''GO_ID''], dtypes = [Object, Object],
        rows = [(0, [Str ''a'', Str ''G1'']), (1, [Str ''b'', Str ''G1'']),
                (2, [Str ''b'', Str ''G2''])]\<rparr>
      3 5 0 [Str ''G1'', Str ''G2''] = Inr [Fin 0, Fin 0]
   \<and> p_val_loop (\<lambda>i j. Fin 1)
      \<lparr>columns = [''gene_name'', ''GO_ID''], dtypes = [Object, Object],
        rows = [(0, [Str ''a'', Str ''G1'']), (1, [Str ''b'', Str ''G1'']),
                (2, [Str ''b'', Str ''G2'']), (3, [Str ''c'', Str ''G2'']),
                (4, [Str ''d'', Str ''G3''])]\<rparr>
      \<lparr>columns = [''gene_name'', ''GO_ID''], dtypes = [Object, Object],
        rows = [(0, [Str ''a'', Str ''G1'']), (1, [Str ''b'', Str ''G1'']),
                (2, [Str ''b'', Str ''G2''])]\<rparr>
      3 5 0 [Str ''G1'', Str ''G2''] = Inr [Fin 2, Fin 3]
   \<and> [spec_upper_tail_p_value 2 3 5 2, spec_upper_tail_p_value 1 3 5 2]
       = [Fin (3 / 10), Fin (9 / 10)]"
  by code_simp

subsection \<open>Arguments are left as they were\<close>

lemma take_nth_eq: "take n xs = ys \<Longrightarrow> i < n \<Longrightarrow> xs ! i = ys ! i"
  by (metis nth_take)

lemma get_gene_data_frame:
  assumes "data < length s"
  shows "snd (get_gene_data data gene_name_column test_gene_list s) ! data = s ! data"
proof -
  let ?s1 = "s @ [pd_DataFrame]"
  have d1: "?s1 ! data = s ! data" using assms by (simp add: nth_append)
  show ?thesis
  proof (cases "getitem_values (?s1 ! data) gene_name_column")
    case (Inl e)
    then show ?thesis using d1 by (simp add: get_gene_data_def alloc_def)
  next
    case (Inr vals)
    obtain r s2 where loop:
      "gene_loop data gene_name_column test_gene_list vals (length s) ?s1 = (r, s2)"
      by (cases "gene_loop data gene_name_column test_gene_list vals (length s) ?s1")
    from gene_loop_frame[OF loop] have t: "take (length ?s1) s2 = ?s1"
      and o: "\<forall>gp'. r = Inr gp' \<longrightarrow> gp' = length s \<or> length ?s1 \<le> gp'" by auto
    have d2: "s2 ! data = s ! data"
      using take_nth_eq[OF t, of data] assms d1 by simp
    show ?thesis
    proof (cases r)
      case (Inl e)
      with Inr loop d2 show ?thesis by (simp add: get_gene_data_def alloc_def)
    next
      case (Inr gp')
      with o have "gp' \<noteq> data" using assms by auto
      with \<open>getitem_values (?s1 ! data) gene_name_column = Inr vals\<close> Inr loop d2
      show ?thesis by (simp add: get_gene_data_def alloc_def)
    qed
  qed
qed

lemma get_df_missing_columns_frame:
  assumes "data < length s"
  shows "snd (get_df_missing_columns data s) ! data = s ! data"
  using assms
  by (auto simp: get_df_missing_columns_def alloc_def Let_def nth_append
           split: sum.splits)

text \<open>
  Claim C7: each of \<^verbatim>\<open>get_gene_data\<close>, \<^verbatim>\<open>get_df_missing_columns\<close>,
  \<^verbatim>\<open>find_constant_features\<close>, \<^verbatim>\<open>duplicate_columns\<close> and \<^verbatim>\<open>one_hot_df\<close> leaves the
  dataframe it is given as it was: after the call, whether it returned or raised, the
  object that the argument refers to holds the columns, dtypes, rows and values it held
  before. The in-place operations (\<^verbatim>\<open>drop_duplicates\<close>, \<^verbatim>\<open>sort_values\<close>) act on
  objects that the call itself created.
\<close>

theorem dataframe_argument_unchanged:
  assumes "data < length s"
  shows "snd (get_gene_data data gene_name_column test_gene_list s) ! data = s ! data
       \<and> snd (get_df_missing_columns data s) ! data = s ! data
       \<and> snd (find_constant_features data s) ! data = s ! data
       \<and> snd (duplicate_columns data s) ! data = s ! data
       \<and> snd (one_hot_df sk data cat_col_list s) ! data = s ! data"
  using get_gene_data_frame[OF assms] get_df_missing_columns_frame[OF assms]
  by (simp add: find_constant_features_def duplicate_columns_def one_hot_df_def Let_def)

theorem dataframe_argument_unchanged_witness:
  "snd (get_gene_data 0 ''gene_name'' [''a'']
          [\<lparr>columns = [''gene_name'', ''x''], dtypes = [Object, Float64],
        rows = [(0, [Str ''a'', Num (Fin 1)]), (1, [Str ''a'', Num (Fin 1)])]\<rparr>]) ! 0
     = \<lparr>columns = [''gene_name'', ''x''], dtypes = [Object, Float64],
        rows = [(0, [Str ''a'', Num (Fin 1)]), (1, [Str ''a'', Num (Fin 1)])]\<rparr>
   \<and> snd (get_df_missing_columns 0
          [\<lparr>columns = [''gene_name'', ''x''], dtypes = [Object, Float64],
        rows = [(0, [Str ''a'', Num (Fin 1)]), (1, [Str ''a'', Num (Fin 1)])]\<rparr>]) ! 0
     = \<lparr>columns = [''gene_name'', ''x''], dtypes = [Object, Float64],
        rows = [(0, [Str ''a'', Num (Fin 1)]), (1, [Str ''a'', Num (Fin 1)])]\<rparr>
   \<and> snd (find_constant_features 0
          [\<lparr>columns = [''gene_name'', ''x''], dtypes = [Object, Float64],
        rows = [(0, [Str ''a'', Num (Fin 1)]), (1, [Str ''a'', Num (Fin 1)])]\<rparr>]) ! 0
     = \<lparr>columns = [''gene_name'', ''x''], dtypes = [Object, Float64],
        rows = [(0, [Str ''a'', Num (Fin 1)]), (1, [Str ''a'', Num (Fin 1)])]\<rparr>
   \<and> snd (duplicate_columns 0
          [\<lparr>columns = [''gene_name'', ''x''], dtypes = [Object, Float64],
        rows = [(0, [Str ''a'', Num (Fin 1)]), (1, [Str ''a'', Num (Fin 1)])]\<rparr>]) ! 0
     = \<lparr>columns = [''gene_name'', ''x''], dtypes = [Object, Float64],
        rows = [(0, [Str ''a'', Num (Fin 1)]), (1, [Str ''a'', Num (Fin 1)])]\<rparr>
   \<and> snd (one_hot_df
            \<lparr>LabelEncoder_fit_transform = (\<lambda>v. Inr (map (\<lambda>c. 0) v)),
              OneHotEncoder_fit_transform = (\<lambda>ls. Inr (map (\<lambda>l. [Fin 1]) ls)),
              preprocess_fit_transform = (\<lambda>m. Inr []),
              PCA_fit_transform = (\<lambda>v m. Inr m),
              PCA_inverse_transform = (\<lambda>v m p. Inr p)\<rparr>
          0 [''gene_name'']
          [\<lparr>columns = [''gene_name'', ''x''], dtypes = [Object, Float64],
        rows = [(0, [Str ''a'', Num (Fin 1)]), (1, [Str ''a'', Num (Fin 1)])]\<rparr>]) ! 0
     = \<lparr>columns = [''gene_name'', ''x''], dtypes = [Object, Float64],
        rows = [(0, [Str ''a'', Num (Fin 1)]), (1, [Str ''a'', Num (Fin 1)])]\<rparr>"
  using dataframe_argument_unchanged
    [of 0 "[\<lparr>columns = [''gene_name'', ''x''], dtypes = [Object, Float64],
        rows = [(0, [Str ''a'', Num (Fin 1)]), (1, [Str ''a'', Num (Fin 1)])]\<rparr>]"
        "''gene_name''" "[''a'']"
        "\<lparr>LabelEncoder_fit_transform = (\<lambda>v. Inr (map (\<lambda>c. 0) v)),
              OneHotEncoder_fit_transform = (\<lambda>ls. Inr (map (\<lambda>l. [Fin 1]) ls)),
              preprocess_fit_transform = (\<lambda>m. Inr []),
              PCA_fit_transform = (\<lambda>v m. Inr m),
              PCA_inverse_transform = (\<lambda>v m p. Inr p)\<rparr>"
        "[''gene_name'']"]
  by simp

subsection \<open>The two duplicate-column functions\<close>

text \<open>
  Claim C9: \<^verbatim>\<open>duplicate_columns\<close> and \<^verbatim>\<open>get_duplicate_columns\<close> return the same list of
  labels for every dataframe (and both leave the store as it was).
\<close>

theorem duplicate_columns_eq_get_duplicate_columns:
  "duplicate_columns frame s = get_duplicate_columns frame s"
  by (simp add: duplicate_columns_def get_duplicate_columns_def)

subsection \<open>The GO gene set\<close>

text \<open>
  Claim C10: the result of \<^verbatim>\<open>get_GO_gene_set\<close> is the same for any two values \<open>a\<close> and
  \<open>b\<close> of its \<^verbatim>\<open>gene_ontology_data\<close> argument, of whatever types, given the same gene
  list, files and store: the frame it filters is the one it loads from disk.
\<close>

theorem get_GO_gene_set_ignores_argument:
  "get_GO_gene_set fs str_float a test_gene_list s = get_GO_gene_set fs str_float b test_gene_list s"
  by (simp add: get_GO_gene_set_def)

subsection \<open>Download and denoising\<close>

lemma to_csv_False:
  "to_csv env df path False fs = Inr fs'' \<Longrightarrow>
     fs'' = fs(expanduser (userhome env) path \<mapsto>
               \<lparr>columns = columns df, dtypes = dtypes df,
                rows = zip [0..<length (rows df)] (map snd (rows df))\<rparr>)"
  by (auto simp: to_csv_def csv_table_def Let_def split: if_splits)

text \<open>
  Claim C8, with the two branches told apart: a run of \<^verbatim>\<open>download_and_preprocess_data\<close>
  that completes returns None, and the file system it leaves differs from the one it
  worked on in one file, \<^verbatim>\<open>output_path + 'denoised_' + org + '.csv'\<close> (its \<^verbatim>\<open>~\<close>
  expanded). That file holds the table that the denoising steps make of the table read:
  its columns and its rows' values, the index labels left out. With \<^verbatim>\<open>data_dir\<close> given,
  the file system it worked on is the one it was called in, so the written file is its
  only output. With \<^verbatim>\<open>data_dir\<close> None it is the file system that the \<^verbatim>\<open>wget\<close> and
  \<^verbatim>\<open>unzip\<close> commands have left.
\<close>

theorem download_and_preprocess_data_output:
  assumes "download_and_preprocess_data sk env org data_dir variance_ratio output_path fs
             = (Inr r, fs')"
  shows "r = None
    \<and> (\<exists>(table :: dataframe) (df :: dataframe) (denoised_df :: dataframe).
         (case data_dir of
            Some path \<Rightarrow>
              read_csv env fs path = Inr table
              \<and> df = rename_columns table ''Gene name'' ''gene name''
          | None \<Rightarrow>
              read_csv env (os_system env (unzip_cmd org) (os_system env (download_cmd org) fs))
                (''colombos_'' @ org @ ''_exprdata_20151029.txt'') = Inr table
              \<and> lower_gene_name (rename_columns table ''Gene name'' ''gene name'') = Inr df)
       \<and> denoised sk variance_ratio df = Inr denoised_df
       \<and> fs' = (case data_dir of
                   Some path \<Rightarrow> fs
                 | None \<Rightarrow> os_system env (unzip_cmd org) (os_system env (download_cmd org) fs))
                (expanduser (userhome env) (output_path @ ''denoised_'' @ org @ ''.csv'') \<mapsto>
                   \<lparr>columns = columns denoised_df, dtypes = dtypes denoised_df,
                    rows = zip [0..<length (rows denoised_df)] (map snd (rows denoised_df))\<rparr>))"
proof (cases data_dir)
  case None
  let ?fs2 = "os_system env (unzip_cmd org) (os_system env (download_cmd org) fs)"
  from assms None obtain table df denoised_df fs'' where
    a: "read_csv env ?fs2 (''colombos_'' @ org @ ''_exprdata_20151029.txt'') = Inr table"
    and b: "lower_gene_name (rename_columns table ''Gene name'' ''gene name'') = Inr df"
    and c: "denoised sk variance_ratio df = Inr denoised_df"
    and d: "to_csv env denoised_df (output_path @ ''denoised_'' @ org @ ''.csv'') False ?fs2 = Inr fs''"
    and e: "r = None" "fs' = fs''"
    by (auto simp: download_and_preprocess_data_def Let_def
             simp del: append.simps split: sum.splits)
  from to_csv_False[OF d] e a b c None show ?thesis
    by (intro conjI exI[of _ table] exI[of _ df] exI[of _ denoised_df]) simp_all
next
  case (Some path)
  from assms Some obtain table denoised_df fs'' where
    a: "read_csv env fs path = Inr table"
    and c: "denoised sk variance_ratio (rename_columns table ''Gene name'' ''gene name'') = Inr denoised_df"
    and d: "to_csv env denoised_df (output_path @ ''denoised_'' @ org @ ''.csv'') False fs = Inr fs''"
    and e: "r = None" "fs' = fs''"
    by (auto simp: download_and_preprocess_data_def Let_def
             simp del: append.simps split: sum.splits)
  from to_csv_False[OF d] e a c Some show ?thesis
    by (intro conjI exI[of _ table] exI[of _ "rename_columns table ''Gene name'' ''gene name''"]
          exI[of _ denoised_df]) simp_all
qed

theorem download_and_preprocess_data_output_witness:
  "\<exists>denoised_df :: dataframe.
     denoised
       \<lparr>LabelEncoder_fit_transform = (\<lambda>v. Inr []), OneHotEncoder_fit_transform = (\<lambda>ls. Inr []),
        preprocess_fit_transform =
          (\<lambda>m. Inr (map (map (\<lambda>c. case c of Num (Fin x) \<Rightarrow> Fin x | _ \<Rightarrow> Fin 0)) m)),
        PCA_fit_transform = (\<lambda>v m. Inr m), PCA_inverse_transform = (\<lambda>v m p. Inr p)\<rparr>
       (Fin 0.8)
       (rename_columns
          \<lparr>columns = [''Locus tag'', ''Gene name'', ''Geneid'', ''c1'', ''c2''],
           dtypes = [Object, Object, Object, Float64, Float64],
           rows = [(0, [Str ''b0001'', Str ''thrL'', Str ''944742'', Num (Fin 1), Num (Fin 2)]),
                   (1, [Str ''b0002'', Str ''thrA'', Str ''945803'', Num (Fin 3), Num NaN])]\<rparr>
          ''Gene name'' ''gene name'') = Inr denoised_df
   \<and> download_and_preprocess_data
       \<lparr>LabelEncoder_fit_transform = (\<lambda>v. Inr []), OneHotEncoder_fit_transform = (\<lambda>ls. Inr []),
        preprocess_fit_transform =
          (\<lambda>m. Inr (map (map (\<lambda>c. case c of Num (Fin x) \<Rightarrow> Fin x | _ \<Rightarrow> Fin 0)) m)),
        PCA_fit_transform = (\<lambda>v m. Inr m), PCA_inverse_transform = (\<lambda>v m p. Inr p)\<rparr>
       \<lparr>os_system = (\<lambda>cmd fs. fs),
        userhome = (\<lambda>name. if name = [] then Some ''/home/u'' else None),
        can_create = (\<lambda>file. True)\<rparr>
       ''ecoli'' (Some ''data.txt'') (Fin 0.8) ''~/Downloads/''
       [''data.txt'' \<mapsto>
          \<lparr>columns = [''Locus tag'', ''Gene name'', ''Geneid'', ''c1'', ''c2''],
           dtypes = [Object, Object, Object, Float64, Float64],
           rows = [(0, [Str ''b0001'', Str ''thrL'', Str ''944742'', Num (Fin 1), Num (Fin 2)]),
                   (1, [Str ''b0002'', Str ''thrA'', Str ''945803'', Num (Fin 3), Num NaN])]\<rparr>]
     = (Inr None,
        [''data.txt'' \<mapsto>
          \<lparr>columns = [''Locus tag'', ''Gene name'', ''Geneid'', ''c1'', ''c2''],
           dtypes = [Object, Object, Object, Float64, Float64],
           rows = [(0, [Str ''b0001'', Str ''thrL'', Str ''944742'', Num (Fin 1), Num (Fin 2)]),
                   (1, [Str ''b0002'', Str ''thrA'', Str ''945803'', Num (Fin 3), Num NaN])]\<rparr>,
         ''/home/u/Downloads/denoised_ecoli.csv'' \<mapsto>
           \<lparr>columns = columns denoised_df, dtypes = dtypes denoised_df,
            rows = zip [0..<length (rows denoised_df)] (map snd (rows denoised_df))\<rparr>])"
proof -
  define sk where "sk = \<lparr>LabelEncoder_fit_transform = (\<lambda>v. Inr []), OneHotEncoder_fit_transform = (\<lambda>ls. Inr []),
        preprocess_fit_transform =
          (\<lambda>m. Inr (map (map (\<lambda>c. case c of Num (Fin x) \<Rightarrow> Fin x | _ \<Rightarrow> Fin 0)) m)),
        PCA_fit_transform = (\<lambda>v m. Inr m), PCA_inverse_transform = (\<lambda>v m p. Inr p)\<rparr>"
  define env where "env = \<lparr>os_system = (\<lambda>cmd (fs :: files). fs),
        userhome = (\<lambda>name. if name = [] then Some ''/home/u'' else None),
        can_create = (\<lambda>file :: string. True)\<rparr>"
  define tbl where "tbl = \<lparr>columns = [''Locus tag'', ''Gene name'', ''Geneid'', ''c1'', ''c2''],
           dtypes = [Object, Object, Object, Float64, Float64],
           rows = [(0, [Str ''b0001'', Str ''thrL'', Str ''944742'', Num (Fin 1), Num (Fin 2)]),
                   (1, [Str ''b0002'', Str ''thrA'', Str ''945803'', Num (Fin 3), Num NaN])]\<rparr>"
  define fs :: files where "fs = [''data.txt'' \<mapsto> tbl]"
  define run where "run = download_and_preprocess_data sk env ''ecoli'' (Some ''data.txt'')
                (Fin 0.8) ''~/Downloads/'' fs"
  have "fst run = Inr None"
    unfolding run_def sk_def env_def fs_def tbl_def by code_simp
  then have r: "download_and_preprocess_data sk env ''ecoli'' (Some ''data.txt'')
                (Fin 0.8) ''~/Downloads/'' fs = (Inr None, snd run)"
    unfolding run_def by (metis prod.collapse)
  have rd: "read_csv env fs ''data.txt'' = Inr tbl"
    by (simp add: read_csv_def env_def fs_def expanduser_def)
  have ex: "expanduser (userhome env) (''~/Downloads/'' @ ''denoised_'' @ ''ecoli'' @ ''.csv'')
              = ''/home/u/Downloads/denoised_ecoli.csv''"
    by (simp add: expanduser_def env_def)
  from download_and_preprocess_data_output[OF r] obtain table df D :: dataframe where
    "read_csv env fs ''data.txt'' = Inr table"
    "df = rename_columns table ''Gene name'' ''gene name''"
    "denoised sk (Fin 0.8) df = Inr D"
    "snd run = fs(expanduser (userhome env) (''~/Downloads/'' @ ''denoised_'' @ ''ecoli'' @ ''.csv'') \<mapsto>
                   \<lparr>columns = columns D, dtypes = dtypes D,
                    rows = zip [0..<length (rows D)] (map snd (rows D))\<rparr>)"
    by (auto simp only: option.case)
  with rd ex have
    "denoised sk (Fin 0.8) (rename_columns tbl ''Gene name'' ''gene name'') = Inr D"
    "snd run = fs(''/home/u/Downloads/denoised_ecoli.csv'' \<mapsto>
                   \<lparr>columns = columns D, dtypes = dtypes D,
                    rows = zip [0..<length (rows D)] (map snd (rows D))\<rparr>)"
    by simp_all
  with r show ?thesis
    unfolding run_def sk_def env_def fs_def tbl_def by (intro exI[of _ D]) simp
qed

text \<open>
  Claim C8 as it is written calls the CSV the only output in every case. In a run with
  \<^verbatim>\<open>data_dir\<close> None, started in an empty directory where \<^verbatim>\<open>unzip\<close> extracts the
  expression table, the function completes and leaves that table behind beside the CSV.
\<close>

theorem download_branch_leaves_other_files:
  "fst (download_and_preprocess_data
       \<lparr>LabelEncoder_fit_transform = (\<lambda>v. Inr []), OneHotEncoder_fit_transform = (\<lambda>ls. Inr []),
        preprocess_fit_transform =
          (\<lambda>m. Inr (map (map (\<lambda>c. case c of Num (Fin x) \<Rightarrow> Fin x | _ \<Rightarrow> Fin 0)) m)),
        PCA_fit_transform = (\<lambda>v m. Inr m), PCA_inverse_transform = (\<lambda>v m p. Inr p)\<rparr>
       \<lparr>os_system = (\<lambda>cmd fs. if cmd = ''unzip ecoli_compendium_data.zip''
                  then fs(''colombos_ecoli_exprdata_20151029.txt'' \<mapsto>
                    \<lparr>columns = [''Locus tag'', ''Gene name'', ''Geneid'', ''c1'', ''c2''],
                     dtypes = [Object, Object, Object, Float64, Float64],
                     rows = [(0, [Str ''b0001'', Str ''thrL'', Str ''944742'', Num (Fin 1), Num (Fin 2)]),
                             (1, [Str ''b0002'', Str ''thrA'', Str ''945803'', Num (Fin 3), Num NaN])]\<rparr>)
                  else fs),
        userhome = (\<lambda>name. if name = [] then Some ''/home/u'' else None),
        can_create = (\<lambda>file. True)\<rparr>
       ''ecoli'' None (Fin 0.8) ''~/Downloads/'' Map.empty) = Inr None
   \<and> \<not> (\<exists>table.
        snd (download_and_preprocess_data
       \<lparr>LabelEncoder_fit_transform = (\<lambda>v. Inr []), OneHotEncoder_fit_transform = (\<lambda>ls. Inr []),
        preprocess_fit_transform =
          (\<lambda>m. Inr (map (map (\<lambda>c. case c of Num (Fin x) \<Rightarrow> Fin x | _ \<Rightarrow> Fin 0)) m)),
        PCA_fit_transform = (\<lambda>v m. Inr m), PCA_inverse_transform = (\<lambda>v m p. Inr p)\<rparr>
       \<lparr>os_system = (\<lambda>cmd fs. if cmd = ''unzip ecoli_compendium_data.zip''
                  then fs(''colombos_ecoli_exprdata_20151029.txt'' \<mapsto>
                    \<lparr>columns = [''Locus tag'', ''Gene name'', ''Geneid'', ''c1'', ''c2''],
                     dtypes = [Object, Object, Object, Float64, Float64],
                     rows = [(0, [Str ''b0001'', Str ''thrL'', Str ''944742'', Num (Fin 1), Num (Fin 2)]),
                             (1, [Str ''b0002'', Str ''thrA'', Str ''945803'', Num (Fin 3), Num NaN])]\<rparr>)
                  else fs),
        userhome = (\<lambda>name. if name = [] then Some ''/home/u'' else None),
        can_create = (\<lambda>file. True)\<rparr>
       ''ecoli'' None (Fin 0.8) ''~/Downloads/'' Map.empty)
        = [''/home/u/Downloads/denoised_ecoli.csv'' \<mapsto> table])"
proof -
  define run where "run = download_and_preprocess_data
       \<lparr>LabelEncoder_fit_transform = (\<lambda>v. Inr []), OneHotEncoder_fit_transform = (\<lambda>ls. Inr []),
        preprocess_fit_transform =
          (\<lambda>m. Inr (map (map (\<lambda>c. case c of Num (Fin x) \<Rightarrow> Fin x | _ \<Rightarrow> Fin 0)) m)),
        PCA_fit_transform = (\<lambda>v m. Inr m), PCA_inverse_transform = (\<lambda>v m p. Inr p)\<rparr>
       \<lparr>os_system = (\<lambda>cmd fs. if cmd = ''unzip ecoli_compendium_data.zip''
                  then fs(''colombos_ecoli_exprdata_20151029.txt'' \<mapsto>
                    \<lparr>columns = [''Locus tag'', ''Gene name'', ''Geneid'', ''c1'', ''c2''],
                     dtypes = [Object, Object, Object, Float64, Float64],
                     rows = [(0, [Str ''b0001'', Str ''thrL'', Str ''944742'', Num (Fin 1), Num (Fin 2)]),
                             (1, [Str ''b0002'', Str ''thrA'', Str ''945803'', Num (Fin 3), Num NaN])]\<rparr>)
                  else fs),
        userhome = (\<lambda>name. if name = [] then Some ''/home/u'' else None),
        can_create = (\<lambda>file. True)\<rparr>
       ''ecoli'' None (Fin 0.8) ''~/Downloads/'' Map.empty"
  have a: "fst run = Inr None"
    unfolding run_def by code_simp
  have b: "snd run ''colombos_ecoli_exprdata_20151029.txt'' \<noteq> None"
    unfolding run_def by code_simp
  have c: "\<not> (\<exists>table. snd run = [''/home/u/Downloads/denoised_ecoli.csv'' \<mapsto> table])"
  proof
    assume "\<exists>table. snd run = [''/home/u/Downloads/denoised_ecoli.csv'' \<mapsto> table]"
    then obtain table where "snd run = [''/home/u/Downloads/denoised_ecoli.csv'' \<mapsto> table]" ..
    then have "snd run ''colombos_ecoli_exprdata_20151029.txt''
                 = [''/home/u/Downloads/denoised_ecoli.csv'' \<mapsto> table] ''colombos_ecoli_exprdata_20151029.txt''"
      by simp
    with b show False by simp
  qed
  from a c show ?thesis unfolding run_def by blast
qed

end
